theory Spec2Isabelle
  imports
    Complex_Main
    "HOL-Library.Finite_Map"
    "HOL-Library.Char_ord"
    "HOL-Library.List_Lexorder"
begin

unbundle bit_operations_syntax

section \<open>Python values\<close>

text \<open>
  The module \<^verbatim>\<open>ivre/db/elastic.py\<close> works on JSON-shaped Python values: host documents,
  request bodies and engine responses are dictionaries with string keys. A dictionary is a
  finite map, so that equality of two models is Python's \<^verbatim>\<open>==\<close> on dictionaries
  (which ignores insertion order); where the module iterates over a dictionary, the order
  of the keys is a parameter (see \<open>py_iter\<close> below). A string is a list of characters,
  each a code point below 256. A float is represented by the rational number it denotes;
  the module never computes with floats, it only moves them (\<^verbatim>\<open>nan\<close> and the infinities
  are not represented).
\<close>

datatype pyval =
    PNone
  | PBool bool
  | PInt int
  | PFloat rat
  | PStr string
  | PList "pyval list"
  | PTuple "pyval list"
  | PDict "(string, pyval) fmap"

text \<open>
  Exceptions are values. The string is the message; for the exceptions raised by Python's
  built-in operations only the class is significant and the message names the operation.
\<close>

datatype error =
    TypeError string
  | ValueError string
  | KeyError string
  | AttributeError string

text \<open>A dictionary display \<^verbatim>\<open>{k1: v1, ..., kn: vn}\<close> with distinct keys.\<close>

definition dict :: "(string \<times> pyval) list \<Rightarrow> pyval" where
  "dict kvs = PDict (fmap_of_list kvs)"

subsection \<open>Built-in operations used by the module\<close>

text \<open>\<^verbatim>\<open>needle in haystack\<close> for two strings.\<close>

fun str_contains :: "string \<Rightarrow> string \<Rightarrow> bool" where
  "str_contains needle [] = (needle = [])"
| "str_contains needle (c # cs) =
     (take (length needle) (c # cs) = needle \<or> str_contains needle cs)"

text \<open>
  \<^verbatim>\<open>key in obj\<close> for a string \<open>key\<close>: key membership for a dictionary, element membership
  for a list or a tuple, substring test for a string, \<^verbatim>\<open>TypeError\<close> otherwise.
\<close>

fun py_contains :: "string \<Rightarrow> pyval \<Rightarrow> error + bool" where
  "py_contains key (PDict m) = Inr (fmlookup m key \<noteq> None)"
| "py_contains key (PList xs) = Inr (PStr key \<in> set xs)"
| "py_contains key (PTuple xs) = Inr (PStr key \<in> set xs)"
| "py_contains key (PStr s) = Inr (str_contains key s)"
| "py_contains key _ = Inl (TypeError ''argument is not iterable'')"

text \<open>
  \<^verbatim>\<open>obj[key]\<close> for a string \<open>key\<close>: \<^verbatim>\<open>KeyError\<close> on a dictionary without the key,
  \<^verbatim>\<open>TypeError\<close> on anything that is not a dictionary (sequences take integer indices).
\<close>

fun py_getitem :: "pyval \<Rightarrow> string \<Rightarrow> error + pyval" where
  "py_getitem (PDict m) key =
     (case fmlookup m key of None \<Rightarrow> Inl (KeyError key) | Some v \<Rightarrow> Inr v)"
| "py_getitem _ key = Inl (TypeError ''indices must be integers or object is not subscriptable'')"

text \<open>\<^verbatim>\<open>obj.get(key, default)\<close>: only dictionaries have the method.\<close>

fun py_get :: "pyval \<Rightarrow> string \<Rightarrow> pyval \<Rightarrow> error + pyval" where
  "py_get (PDict m) key dflt =
     (case fmlookup m key of None \<Rightarrow> Inr dflt | Some v \<Rightarrow> Inr v)"
| "py_get _ key dflt = Inl (AttributeError ''get'')"

text \<open>\<^verbatim>\<open>obj[key] = v\<close> for a string \<open>key\<close>.\<close>

fun py_setitem :: "pyval \<Rightarrow> string \<Rightarrow> pyval \<Rightarrow> error + pyval" where
  "py_setitem (PDict m) key v = Inr (PDict (fmupd key v m))"
| "py_setitem _ key v = Inl (TypeError ''object does not support item assignment with a string key'')"

text \<open>The slice \<^verbatim>\<open>seq[::-1]\<close>.\<close>

fun py_reversed :: "pyval \<Rightarrow> error + pyval" where
  "py_reversed (PList xs) = Inr (PList (rev xs))"
| "py_reversed (PTuple xs) = Inr (PTuple (rev xs))"
| "py_reversed (PStr s) = Inr (PStr (rev s))"
| "py_reversed _ = Inl (TypeError ''object is not subscriptable by a slice'')"

text \<open>
  \<^verbatim>\<open>int(x)\<close>, as Python 3 defines it (version 3.11, with its default settings). A
  character of the model is a code point below 256. For a string, whitespace is dropped on
  both sides: the code points 9 to 13 and 32, and the two code points above 127 that Python
  counts as whitespace, 133 and 160. What is left is an optional sign and decimal digits,
  the first character after the sign being a digit; a single underscore may stand between
  two digits (\<^verbatim>\<open>int('1_000')\<close> is 1000). Among the code points below 256 the decimal digits
  are \<^verbatim>\<open>0\<close> to \<^verbatim>\<open>9\<close>. A literal of more than 4300 digits is refused
  (\<^verbatim>\<open>sys.get_int_max_str_digits()\<close>), with a \<^verbatim>\<open>ValueError\<close> as for a string that is not a
  literal. A float is truncated towards zero.
\<close>

definition is_space :: "char \<Rightarrow> bool" where
  "is_space c = ((of_char c :: nat) \<in> {9, 10, 11, 12, 13, 32, 133, 160})"

definition is_digit :: "char \<Rightarrow> bool" where
  "is_digit c = (48 \<le> (of_char c :: nat) \<and> (of_char c :: nat) \<le> 57)"

definition strip :: "string \<Rightarrow> string" where
  "strip s = rev (dropWhile is_space (rev (dropWhile is_space s)))"

definition digits_value :: "string \<Rightarrow> nat" where
  "digits_value ds = foldl (\<lambda>n c. 10 * n + (of_char c - 48)) 0 ds"

text \<open>What may follow a digit: digits, each of them after at most one underscore.\<close>

fun grouped_digits :: "string \<Rightarrow> bool" where
  "grouped_digits [] = True"
| "grouped_digits [c] = is_digit c"
| "grouped_digits (c # d # ds) =
     (if c = CHR ''_'' then is_digit d \<and> grouped_digits ds
      else is_digit c \<and> grouped_digits (d # ds))"

definition unsigned_of_str :: "string \<Rightarrow> int option" where
  "unsigned_of_str ds =
     (case ds of
        [] \<Rightarrow> None
      | c # cs \<Rightarrow>
          if is_digit c \<and> grouped_digits cs \<and> length (filter is_digit ds) \<le> 4300
          then Some (int (digits_value (filter is_digit ds))) else None)"

definition int_of_str :: "string \<Rightarrow> int option" where
  "int_of_str s =
     (case strip s of
        [] \<Rightarrow> None
      | c # r \<Rightarrow>
          if c = CHR ''-'' then map_option uminus (unsigned_of_str r)
          else if c = CHR ''+'' then unsigned_of_str r
          else unsigned_of_str (c # r))"

fun py_int :: "pyval \<Rightarrow> error + int" where
  "py_int (PInt n) = Inr n"
| "py_int (PBool b) = Inr (if b then 1 else 0)"
| "py_int (PFloat r) = Inr (if 0 \<le> r then \<lfloor>r\<rfloor> else \<lceil>r\<rceil>)"
| "py_int (PStr s) =
     (case int_of_str s of
        None \<Rightarrow> Inl (ValueError ''invalid literal for int() with base 10'')
      | Some n \<Rightarrow> Inr n)"
| "py_int _ = Inl (TypeError ''int() argument must be a string or a number'')"

text \<open>
  A comprehension \<^verbatim>\<open>[f(x) for x in xs]\<close> whose body may raise: the first exception, from
  left to right, ends it.
\<close>

fun try_map :: "('a \<Rightarrow> error + 'b) \<Rightarrow> 'a list \<Rightarrow> error + 'b list" where
  "try_map f [] = Inr []"
| "try_map f (x # xs) =
     (case f x of
        Inl e \<Rightarrow> Inl e
      | Inr y \<Rightarrow> (case try_map f xs of Inl e \<Rightarrow> Inl e | Inr ys \<Rightarrow> Inr (y # ys)))"

text \<open>
  The items a \<^verbatim>\<open>for\<close> loop or a comprehension takes from an object: the elements of a
  list or a tuple, the keys of a dictionary, the characters of a string. Python lists the
  keys of a dictionary in the order of their insertion, which a finite map does not record:
  the list of the keys of a dictionary, in the order in which Python iterates over them, is
  the parameter \<open>korder\<close>.
\<close>

fun py_iter :: "((string, pyval) fmap \<Rightarrow> string list) \<Rightarrow> pyval \<Rightarrow> error + pyval list" where
  "py_iter korder (PList xs) = Inr xs"
| "py_iter korder (PTuple xs) = Inr xs"
| "py_iter korder (PDict m) = Inr (map PStr (korder m))"
| "py_iter korder (PStr s) = Inr (map (\<lambda>c. PStr [c]) s)"
| "py_iter korder _ = Inl (TypeError ''object is not iterable'')"

text \<open>
  The items of an object that passes the test
  \<^verbatim>\<open>not isinstance(x, basestring) and hasattr(x, '__iter__')\<close>, or \<open>None\<close> when the test
  fails.
\<close>

fun iter_items :: "((string, pyval) fmap \<Rightarrow> string list) \<Rightarrow> pyval \<Rightarrow> pyval list option" where
  "iter_items korder (PList xs) = Some xs"
| "iter_items korder (PTuple xs) = Some xs"
| "iter_items korder (PDict m) = Some (map PStr (korder m))"
| "iter_items korder _ = None"

text \<open>
  A generator whose body \<^verbatim>\<open>yield f(x)\<close> runs over a list: the values yielded, and the
  exception that ended the iteration, if one did.
\<close>

fun gen_map :: "('a \<Rightarrow> error + 'b) \<Rightarrow> 'a list \<Rightarrow> 'b list \<times> error option" where
  "gen_map f [] = ([], None)"
| "gen_map f (x # xs) =
     (case f x of
        Inl e \<Rightarrow> ([], Some e)
      | Inr y \<Rightarrow> (case gen_map f xs of (ys, r) \<Rightarrow> (y # ys, r)))"

text \<open>\<^verbatim>\<open>s.split(sep)\<close> for a one-character separator.\<close>

fun split_on :: "char \<Rightarrow> string \<Rightarrow> string list" where
  "split_on sep [] = [[]]"
| "split_on sep (c # cs) =
     (if c = sep then [] # split_on sep cs
      else (case split_on sep cs of [] \<Rightarrow> [[c]] | w # ws \<Rightarrow> (c # w) # ws))"

text \<open>\<^verbatim>\<open>s.rsplit(sep, 1)[-1]\<close>: what follows the last separator.\<close>

definition rsplit_last :: "char \<Rightarrow> string \<Rightarrow> string" where
  "rsplit_last sep s = rev (takeWhile (\<lambda>c. c \<noteq> sep) (rev s))"

text \<open>
  \<^verbatim>\<open>s.split(sep, 1)\<close> and \<^verbatim>\<open>s.split(sep)\<close> for a separator string, which Python requires
  to be non-empty; \<open>acc\<close> holds the characters of the current piece, reversed.
\<close>

fun split_once_from :: "string \<Rightarrow> string \<Rightarrow> string \<Rightarrow> string list" where
  "split_once_from sep acc [] = [rev acc]"
| "split_once_from sep acc (c # cs) =
     (if take (length sep) (c # cs) = sep then [rev acc, drop (length sep) (c # cs)]
      else split_once_from sep (c # acc) cs)"

definition split_once :: "string \<Rightarrow> string \<Rightarrow> string list" where
  "split_once sep s = split_once_from sep [] s"

function split_from :: "string \<Rightarrow> string \<Rightarrow> string \<Rightarrow> string list" where
  "split_from sep acc [] = [rev acc]"
| "split_from sep acc (c # cs) =
     (if sep \<noteq> [] \<and> take (length sep) (c # cs) = sep
      then rev acc # split_from sep [] (drop (length sep) (c # cs))
      else split_from sep (c # acc) cs)"
  by pat_completeness auto
termination
  by (relation "measure (\<lambda>(sep, acc, s). length s)") auto

definition split_str :: "string \<Rightarrow> string \<Rightarrow> string list" where
  "split_str sep s = split_from sep [] s"

text \<open>
  \<^verbatim>\<open>s.lower()\<close>, as Python 3 defines it on the code points below 256: the letters
  \<^verbatim>\<open>A\<close> to \<^verbatim>\<open>Z\<close> and the capital letters from 192 to 222 (215, the multiplication sign,
  apart) move up by 32.
\<close>

definition lower_char :: "char \<Rightarrow> char" where
  "lower_char c =
     (if (65 \<le> (of_char c :: nat) \<and> (of_char c :: nat) \<le> 90)
         \<or> (192 \<le> (of_char c :: nat) \<and> (of_char c :: nat) \<le> 214)
         \<or> (216 \<le> (of_char c :: nat) \<and> (of_char c :: nat) \<le> 222)
      then char_of (of_char c + (32::nat)) else c)"

definition lower :: "string \<Rightarrow> string" where
  "lower s = map lower_char s"

section \<open>Predicates\<close>

text \<open>
  Filters are values of the library \<^verbatim>\<open>elasticsearch_dsl\<close>, which is not part of the
  module. The model records which library operations the module calls:
  \<^item> \<open>QEmpty\<close> is \<^verbatim>\<open>Q()\<close>;
  \<^item> \<open>Q kind field value\<close> is \<^verbatim>\<open>Q(kind, **{field: value})\<close> (the library reads the double
    underscore of a keyword such as \<^verbatim>\<open>infos__as_num\<close> as a dot);
  \<^item> \<open>QNested path q\<close> is \<^verbatim>\<open>Q('nested', path=path, query=q)\<close>;
  \<^item> \<open>QNot q\<close>, \<open>QAnd p q\<close> and \<open>QOr p q\<close> are \<^verbatim>\<open>~q\<close>, \<^verbatim>\<open>p & q\<close> and \<^verbatim>\<open>p | q\<close>.
\<close>

datatype query =
    QEmpty
  | Q string string pyval
  | QNested string query
  | QNot query
  | QAnd query query
  | QOr query query

text \<open>A compiled regular expression (\<^verbatim>\<open>utils.REGEXP_T\<close>).\<close>

record regexp =
  rx_pattern :: string
  rx_flags :: int

subsection \<open>Class \<^verbatim>\<open>ElasticDB\<close>\<close>

definition flt_empty :: query where
  "flt_empty = QEmpty"

definition searchnonexistent :: query where
  "searchnonexistent = Q ''match'' ''_id'' (PInt 0)"

text \<open>
  \<^verbatim>\<open>searchhost(cls, addr, neg=False)\<close>. Its docstring reads: Filters (if \<^verbatim>\<open>neg\<close> == True,
  filters out) one particular host (IP address). The body is the single statement
  \<^verbatim>\<open>return Q('match', addr=addr)\<close>.
\<close>

definition searchhost :: "pyval \<Rightarrow> bool \<Rightarrow> query" where
  "searchhost addr neg = Q ''match'' ''addr'' addr"

text \<open>\<^verbatim>\<open>searchhosts(cls, hosts, neg=False)\<close>: the body is \<^verbatim>\<open>pass\<close>; the call returns \<^verbatim>\<open>None\<close>.\<close>

definition searchhosts :: "pyval \<Rightarrow> bool \<Rightarrow> query option" where
  "searchhosts hosts neg = None"

text \<open>
  \<^verbatim>\<open>_get_pattern\<close>: the pattern that \<^verbatim>\<open>utils.regexp2pattern\<close> (a parameter here, it is
  defined elsewhere) computes. A flag other than \<^verbatim>\<open>re.UNICODE\<close> (32) is dropped with a
  logged warning; \<open>get_pattern_warns\<close> tells when.
\<close>

definition get_pattern :: "(regexp \<Rightarrow> string \<times> int) \<Rightarrow> regexp \<Rightarrow> string" where
  "get_pattern regexp2pattern rx = fst (regexp2pattern rx)"

definition get_pattern_warns :: "(regexp \<Rightarrow> string \<times> int) \<Rightarrow> regexp \<Rightarrow> bool" where
  "get_pattern_warns regexp2pattern rx = (snd (regexp2pattern rx) AND NOT 32 \<noteq> 0)"

definition flt_and_pair :: "query \<Rightarrow> query \<Rightarrow> query" where
  "flt_and_pair cond1 cond2 = QAnd cond1 cond2"

definition flt_or_pair :: "query \<Rightarrow> query \<Rightarrow> query" where
  "flt_or_pair cond1 cond2 = QOr cond1 cond2"

text \<open>
  Modelled from the spec: \<^verbatim>\<open>flt_and\<close> of the base class \<^verbatim>\<open>DB\<close> (module \<^verbatim>\<open>ivre.db\<close>),
  the Query Composer's \<^verbatim>\<open>and(p1, p2)\<close>; it combines its arguments with \<^verbatim>\<open>_flt_and\<close>.
\<close>

definition flt_and :: "query \<Rightarrow> query \<Rightarrow> query" where
  "flt_and flt1 flt2 = flt_and_pair flt1 flt2"

subsection \<open>The builders of class \<^verbatim>\<open>ElasticDBActive\<close>\<close>

definition negate_if :: "bool \<Rightarrow> query \<Rightarrow> query" where
  "negate_if neg res = (if neg then QNot res else res)"

definition searchhaslocation :: "bool \<Rightarrow> query" where
  "searchhaslocation neg = negate_if neg (Q ''exists'' ''field'' (PStr ''infos.coordinates''))"

text \<open>
  \<^verbatim>\<open>searchcountry\<close>. The helper \<^verbatim>\<open>utils.country_unalias\<close> is defined in another module
  and is a parameter.
\<close>

definition searchcountry :: "(pyval \<Rightarrow> pyval) \<Rightarrow> pyval \<Rightarrow> bool \<Rightarrow> query" where
  "searchcountry country_unalias country neg =
     (let country' = country_unalias country
      in negate_if neg
           (case country' of
              PList _ \<Rightarrow> Q ''terms'' ''infos.country_code'' country'
            | _ \<Rightarrow> Q ''match'' ''infos.country_code'' country'))"

text \<open>
  \<^verbatim>\<open>searchasnum\<close>. The order in which Python iterates over the keys of a dictionary is
  the parameter \<open>korder\<close>.
\<close>

definition searchasnum ::
  "((string, pyval) fmap \<Rightarrow> string list) \<Rightarrow> pyval \<Rightarrow> bool \<Rightarrow> error + query" where
  "searchasnum korder asnum neg =
     (case iter_items korder asnum of
        Some vals \<Rightarrow>
          (case try_map py_int vals of
             Inl e \<Rightarrow> Inl e
           | Inr ns \<Rightarrow> Inr (negate_if neg (Q ''terms'' ''infos.as_num'' (PList (map PInt ns)))))
      | None \<Rightarrow>
          (case py_int asnum of
             Inl e \<Rightarrow> Inl e
           | Inr n \<Rightarrow> Inr (negate_if neg (Q ''match'' ''infos.as_num'' (PInt n)))))"

text \<open>An argument that is either a plain string or a compiled regular expression.\<close>

datatype strpat = Str string | Rx regexp

definition searchasname :: "(regexp \<Rightarrow> string \<times> int) \<Rightarrow> strpat \<Rightarrow> bool \<Rightarrow> query" where
  "searchasname regexp2pattern asname neg =
     negate_if neg
       (case asname of
          Rx rx \<Rightarrow> Q ''regexp'' ''infos.as_name'' (PStr (get_pattern regexp2pattern rx))
        | Str s \<Rightarrow> Q ''match'' ''infos.as_name'' (PStr s))"

text \<open>
  The \<^verbatim>\<open>values\<close> argument of \<^verbatim>\<open>searchscript\<close>: a query, a string, a regular expression,
  or a mapping whose items (in iteration order) pair a field with a value or a regular
  expression.
\<close>

datatype valpat = Val pyval | ValRx regexp

datatype script_values =
    VQuery query
  | VStr string
  | VRx regexp
  | VItems "(string \<times> valpat) list"

text \<open>An entry of the list \<^verbatim>\<open>req\<close>: a triple (kind, field, value) or a query.\<close>

datatype req_item = Triple string string pyval | Sub query

definition name_req :: "(regexp \<Rightarrow> string \<times> int) \<Rightarrow> string \<Rightarrow> strpat option \<Rightarrow> req_item list" where
  "name_req regexp2pattern field arg =
     (case arg of
        None \<Rightarrow> []
      | Some (Rx rx) \<Rightarrow> [Triple ''regexp'' field (PStr (get_pattern regexp2pattern rx))]
      | Some (Str s) \<Rightarrow> [Triple ''match'' field (PStr s)])"

text \<open>
  \<^verbatim>\<open>subfield = xmlnmap.ALIASES_TABLE_ELEMS.get(name, name)\<close>, as the string that the
  formats \<^verbatim>\<open>"%s.%s"\<close> and \<^verbatim>\<open>"ports.scripts.%s"\<close> make of it. The table belongs to another
  module and is a parameter, as is the text \<open>rx_str\<close> that \<^verbatim>\<open>%s\<close> gives for a compiled
  regular expression (which is never a key of the table).
\<close>

definition subfield_of :: "(string \<Rightarrow> string option) \<Rightarrow> (regexp \<Rightarrow> string) \<Rightarrow> strpat \<Rightarrow> string" where
  "subfield_of aliases rx_str name =
     (case name of
        Str s \<Rightarrow> (case aliases s of None \<Rightarrow> s | Some a \<Rightarrow> a)
      | Rx rx \<Rightarrow> rx_str rx)"

definition item_req :: "(regexp \<Rightarrow> string \<times> int) \<Rightarrow> string \<Rightarrow> string \<times> valpat \<Rightarrow> req_item" where
  "item_req regexp2pattern subfield item =
     (case item of
        (field, ValRx rx) \<Rightarrow>
           Triple ''regexp'' (subfield @ ''.'' @ field) (PStr (get_pattern regexp2pattern rx))
      | (field, Val v) \<Rightarrow> Triple ''match'' (subfield @ ''.'' @ field) v)"

definition values_req ::
  "(regexp \<Rightarrow> string \<times> int) \<Rightarrow> string \<Rightarrow> script_values \<Rightarrow> req_item list" where
  "values_req regexp2pattern subfield vals =
     (case vals of
        VQuery q \<Rightarrow> [Sub q]
      | VStr s \<Rightarrow> [Triple ''match'' subfield (PStr s)]
      | VRx rx \<Rightarrow> [Triple ''regexp'' subfield (PStr (get_pattern regexp2pattern rx))]
      | VItems items \<Rightarrow> map (item_req regexp2pattern subfield) items)"

definition and_req :: "query \<Rightarrow> req_item \<Rightarrow> query" where
  "and_req query subreq =
     (case subreq of
        Sub q \<Rightarrow> QAnd query q
      | Triple kind field v \<Rightarrow> QAnd query (Q kind (''ports.scripts.'' @ field) v))"

definition searchscript ::
  "(regexp \<Rightarrow> string \<times> int) \<Rightarrow> (string \<Rightarrow> string option) \<Rightarrow> (regexp \<Rightarrow> string) \<Rightarrow>
   strpat option \<Rightarrow> strpat option \<Rightarrow> script_values option \<Rightarrow> bool \<Rightarrow> error + query" where
  "searchscript regexp2pattern aliases rx_str name output vals neg =
     (let req = name_req regexp2pattern ''id'' name @ name_req regexp2pattern ''output'' output
      in case (case vals of
                 None \<Rightarrow> Inr req
               | Some v \<Rightarrow>
                   (case name of
                      None \<Rightarrow>
                        Inl (TypeError
                          ''.searchscript() needs a `name` arg when using a `values` arg'')
                    | Some n \<Rightarrow>
                        Inr (req @ values_req regexp2pattern (subfield_of aliases rx_str n) v)))
         of
           Inl e \<Rightarrow> Inl e
         | Inr req \<Rightarrow>
             Inr (negate_if neg
               (case req of
                  [] \<Rightarrow>
                    QNested ''ports''
                      (QNested ''ports.scripts'' (Q ''exists'' ''field'' (PStr ''ports.scripts'')))
                | _ # _ \<Rightarrow>
                    QNested ''ports''
                      (QNested ''ports.scripts'' (foldl and_req QEmpty req)))))"

section \<open>Things defined outside the module\<close>

text \<open>
  The module calls helpers of other modules of the package and of Python libraries. They
  are parameters of the model:
  \<^item> \<open>to_dict\<close>: the method \<^verbatim>\<open>to_dict()\<close> of a query (library \<^verbatim>\<open>elasticsearch_dsl\<close>);
  \<^item> \<open>datetime_fields\<close>: the class attribute \<^verbatim>\<open>DBActive.datetime_fields\<close>;
  \<^item> \<open>all2datetime\<close>: \<^verbatim>\<open>utils.all2datetime\<close>;
  \<^item> \<open>py_float\<close>: \<^verbatim>\<open>float(s)\<close> for a string, and \<open>py_truediv\<close>: \<^verbatim>\<open>value / n\<close> (they
    round, and are left uninterpreted);
  \<^item> \<open>regexp2pattern\<close>: \<^verbatim>\<open>utils.regexp2pattern\<close>; \<open>aliases_table_elems\<close>:
    \<^verbatim>\<open>xmlnmap.ALIASES_TABLE_ELEMS\<close>; \<open>rx_str\<close>: the text \<^verbatim>\<open>%s\<close> gives for a compiled regular
    expression;
  \<^item> \<open>key_order\<close>: the keys of a dictionary in the order in which Python iterates over
    them (the parameter \<open>korder\<close> of \<open>py_iter\<close>).
\<close>

record env =
  to_dict :: "query \<Rightarrow> pyval"
  datetime_fields :: "string list"
  all2datetime :: "pyval \<Rightarrow> error + pyval"
  py_float :: "string \<Rightarrow> error + pyval"
  py_truediv :: "pyval \<Rightarrow> int \<Rightarrow> error + pyval"
  regexp2pattern :: "regexp \<Rightarrow> string \<times> int"
  aliases_table_elems :: "string \<Rightarrow> string option"
  rx_str :: "regexp \<Rightarrow> string"
  key_order :: "(string, pyval) fmap \<Rightarrow> string list"

text \<open>
  The engine behind \<^verbatim>\<open>db_client\<close>, for the Record Store: the documents indexed so far,
  each with the identifier the engine gave it, in the order of indexing. What the engine
  decides is a parameter: the identifier of a new document, whether a document matches a
  query body, and the part of a document that a \<^verbatim>\<open>_source\<close> filter keeps.
\<close>

type_synonym store = "(pyval \<times> pyval) list"

record engine =
  assign_id :: "store \<Rightarrow> pyval"
  matches :: "pyval \<Rightarrow> pyval \<Rightarrow> bool"
  source_filter :: "pyval \<Rightarrow> pyval \<Rightarrow> pyval"

text \<open>\<^verbatim>\<open>db_client.index(index=..., body=body)\<close>.\<close>

definition db_index :: "engine \<Rightarrow> store \<Rightarrow> pyval \<Rightarrow> store" where
  "db_index eng st body = st @ [(assign_id eng st, body)]"

text \<open>
  \<^verbatim>\<open>helpers.scan(db_client, query=query, ...)\<close>: a record \<^verbatim>\<open>{'_id': ..., '_source': ...}\<close>
  for each document that matches, in the order of indexing.
\<close>

definition scan_record :: "engine \<Rightarrow> (string, pyval) fmap \<Rightarrow> pyval \<times> pyval \<Rightarrow> pyval" where
  "scan_record eng query doc =
     dict [(''_id'', fst doc),
           (''_source'',
              (case fmlookup query ''_source'' of
                 None \<Rightarrow> snd doc
               | Some flds \<Rightarrow> source_filter eng flds (snd doc)))]"

definition db_scan :: "engine \<Rightarrow> store \<Rightarrow> (string, pyval) fmap \<Rightarrow> pyval list" where
  "db_scan eng st query =
     map (scan_record eng query) (filter (\<lambda>doc. matches eng (PDict query) (snd doc)) st)"

section \<open>Record Store\<close>

text \<open>Sequencing of steps that may raise.\<close>

definition and_then :: "error + 'a \<Rightarrow> ('a \<Rightarrow> error + 'b) \<Rightarrow> error + 'b" where
  "and_then r f = (case r of Inl e \<Rightarrow> Inl e | Inr x \<Rightarrow> f x)"

text \<open>
  The statement shared by \<^verbatim>\<open>store_host\<close> and \<^verbatim>\<open>get\<close>:
  \<^verbatim>\<open>
  if 'coordinates' in host.get('infos', {}):
      host['infos']['coordinates'] = host['infos']['coordinates'][::-1]
  \<close>
  The assignment changes the dictionary \<^verbatim>\<open>host['infos']\<close> in place; the result is the
  host that holds the changed dictionary.
\<close>

definition flip_coordinates :: "pyval \<Rightarrow> error + pyval" where
  "flip_coordinates host =
     and_then (py_get host ''infos'' (dict [])) (\<lambda>infos0.
     and_then (py_contains ''coordinates'' infos0) (\<lambda>present.
       if present then
         and_then (py_getitem host ''infos'') (\<lambda>infos.
         and_then (py_getitem infos ''coordinates'') (\<lambda>coords.
         and_then (py_reversed coords) (\<lambda>flipped.
         and_then (py_setitem infos ''coordinates'' flipped) (\<lambda>infos'.
           py_setitem host ''infos'' infos'))))
       else Inr host))"

text \<open>\<^verbatim>\<open>store_host\<close>: the store after the call, or the exception raised.\<close>

definition store_host :: "engine \<Rightarrow> store \<Rightarrow> pyval \<Rightarrow> error + store" where
  "store_host eng st host =
     and_then (flip_coordinates host) (\<lambda>body. Inr (db_index eng st body))"

text \<open>
  The loop of \<^verbatim>\<open>get\<close> over \<^verbatim>\<open>self.datetime_fields\<close>:
  \<^verbatim>\<open>
  if field in host:
      host[field] = utils.all2datetime(host[field])
  \<close>
\<close>

fun convert_datetimes :: "env \<Rightarrow> string list \<Rightarrow> pyval \<Rightarrow> error + pyval" where
  "convert_datetimes ev [] host = Inr host"
| "convert_datetimes ev (field # flds) host =
     and_then (py_contains field host) (\<lambda>present.
       if present then
         and_then (py_getitem host field) (\<lambda>v.
         and_then (all2datetime ev v) (\<lambda>v'.
         and_then (py_setitem host field v') (\<lambda>host'.
           convert_datetimes ev flds host')))
       else convert_datetimes ev flds host)"

text \<open>
  \<^verbatim>\<open>dict(source, _id=ident)\<close>: a copy of the dictionary \<open>source\<close> with the entry \<^verbatim>\<open>_id\<close>. (A
  \<open>source\<close> that is not a dictionary raises here; sequences of pairs are not modelled.)
\<close>

definition dict_with_id :: "pyval \<Rightarrow> pyval \<Rightarrow> error + pyval" where
  "dict_with_id source ident =
     (case source of
        PDict m \<Rightarrow> Inr (PDict (fmupd ''_id'' ident m))
      | _ \<Rightarrow> Inl (TypeError ''cannot convert dictionary update sequence''))"

text \<open>The body of the loop of \<^verbatim>\<open>get\<close>: the host yielded for one record of the scan.\<close>

definition get_host :: "env \<Rightarrow> pyval \<Rightarrow> error + pyval" where
  "get_host ev rec =
     and_then (py_getitem rec ''_source'') (\<lambda>source.
     and_then (py_getitem rec ''_id'') (\<lambda>ident.
     and_then (dict_with_id source ident) (\<lambda>host.
     and_then (flip_coordinates host) (\<lambda>host'.
       convert_datetimes ev (datetime_fields ev) host'))))"

definition get_query :: "env \<Rightarrow> query \<Rightarrow> pyval option \<Rightarrow> (string, pyval) fmap" where
  "get_query ev spec flds =
     (case flds of
        None \<Rightarrow> fmupd ''query'' (to_dict ev spec) fmempty
      | Some fs \<Rightarrow> fmupd ''_source'' fs (fmupd ''query'' (to_dict ev spec) fmempty))"

text \<open>
  \<^verbatim>\<open>get(spec, fields=None)\<close>: the hosts the generator yields, and the exception that ended
  it, if one did.
\<close>

definition get :: "engine \<Rightarrow> env \<Rightarrow> store \<Rightarrow> query \<Rightarrow> pyval option \<Rightarrow> pyval list \<times> error option" where
  "get eng ev st spec flds = gen_map (get_host ev) (db_scan eng st (get_query ev spec flds))"

section \<open>Schema Builder\<close>

text \<open>
  \<^verbatim>\<open>_create_mappings\<close> builds the dictionary \<^verbatim>\<open>res\<close> through a cursor \<^verbatim>\<open>cur\<close>, which is
  \<^verbatim>\<open>res\<close> itself or a \<^verbatim>\<open>properties\<close> dictionary below it. The model of the cursor is the
  dictionary it refers to, \<open>cur\<close>, together with the function \<open>plug\<close> that gives the whole
  of \<^verbatim>\<open>res\<close> from the contents of that dictionary.

  The inner loop, over \<^verbatim>\<open>fld.split('.')[:-1]\<close>:
  \<^verbatim>\<open>
  if curkey is not None:
      subkey = "%s.%s" % (curkey, subkey)
  if cur.get(subkey, {}).get('type') == 'nested':
      cur = cur[subkey].setdefault('properties', {})
      curkey = None
  else:
      curkey = subkey
  \<close>
  A node found with the type \<^verbatim>\<open>nested\<close> is a dictionary and a key of \<^verbatim>\<open>cur\<close>, so the
  branch with \<^verbatim>\<open>KeyError\<close> is never taken. An entry \<^verbatim>\<open>properties\<close> that is not a dictionary
  cannot come from the empty tree; Python would raise at the next use of \<^verbatim>\<open>cur\<close>, the model
  raises at once.
\<close>

definition join_key :: "string option \<Rightarrow> string \<Rightarrow> string" where
  "join_key curkey subkey = (case curkey of None \<Rightarrow> subkey | Some k \<Rightarrow> k @ ''.'' @ subkey)"

type_synonym cursor =
  "((string, pyval) fmap \<Rightarrow> (string, pyval) fmap) \<times> (string, pyval) fmap \<times> string option"

fun walk ::
  "((string, pyval) fmap \<Rightarrow> (string, pyval) fmap) \<Rightarrow> (string, pyval) fmap \<Rightarrow> string option \<Rightarrow>
   string list \<Rightarrow> error + cursor" where
  "walk plug cur curkey [] = Inr (plug, cur, curkey)"
| "walk plug cur curkey (seg # segs) =
     (let subkey = join_key curkey seg
      in and_then
           (py_get (case fmlookup cur subkey of None \<Rightarrow> dict [] | Some node \<Rightarrow> node)
              ''type'' PNone)
           (\<lambda>ty.
              if ty = PStr ''nested'' then
                (case fmlookup cur subkey of
                   Some (PDict node) \<Rightarrow>
                     (case fmlookup node ''properties'' of
                        None \<Rightarrow>
                          walk (\<lambda>p. plug (fmupd subkey (PDict (fmupd ''properties'' (PDict p) node)) cur))
                            fmempty None segs
                      | Some (PDict props) \<Rightarrow>
                          walk (\<lambda>p. plug (fmupd subkey (PDict (fmupd ''properties'' (PDict p) node)) cur))
                            props None segs
                      | Some _ \<Rightarrow> Inl (TypeError ''properties is not a dictionary''))
                 | _ \<Rightarrow> Inl (KeyError subkey))
              else walk plug cur (Some subkey) segs))"

text \<open>
  The body of the outer loops, for one field \<open>fld\<close> and the type \<open>fldtype\<close> it gets: the
  walk, then
  \<^verbatim>\<open>
  subkey = fld.rsplit('.', 1)[-1]
  if curkey is not None:
      subkey = "%s.%s" % (curkey, subkey)
  cur[subkey] = {"type": fldtype}
  \<close>
\<close>

definition add_field :: "string \<Rightarrow> (string, pyval) fmap \<Rightarrow> string \<Rightarrow> error + (string, pyval) fmap" where
  "add_field fldtype res fld =
     and_then (walk (\<lambda>p. p) res None (butlast (split_on CHR ''.'' fld)))
       (\<lambda>(plug, cur, curkey).
          Inr (plug (fmupd (join_key curkey (rsplit_last CHR ''.'' fld))
                      (dict [(''type'', PStr fldtype)]) cur)))"

fun add_fields :: "string \<Rightarrow> (string, pyval) fmap \<Rightarrow> string list \<Rightarrow> error + (string, pyval) fmap" where
  "add_fields fldtype res [] = Inr res"
| "add_fields fldtype res (fld # flds) =
     and_then (add_field fldtype res fld) (\<lambda>res'. add_fields fldtype res' flds)"

fun add_all_mappings ::
  "(string, pyval) fmap \<Rightarrow> (string \<times> string list) list \<Rightarrow> error + (string, pyval) fmap" where
  "add_all_mappings res [] = Inr res"
| "add_all_mappings res ((fldtype, fldnames) # rest) =
     and_then (add_fields fldtype res fldnames) (\<lambda>res'. add_all_mappings res' rest)"

definition create_mappings :: "string list \<Rightarrow> (string \<times> string list) list \<Rightarrow> error + pyval" where
  "create_mappings nested all_mappings =
     and_then (add_fields ''nested'' fmempty nested) (\<lambda>res.
     and_then (add_all_mappings res all_mappings) (\<lambda>res'. Inr (PDict res')))"

section \<open>Aggregation Engine\<close>

text \<open>
  For the aggregations the engine is a function \<open>search\<close> from its state and a request body
  to a response and its next state: \<^verbatim>\<open>db_client.search(body=..., index=...,
  ignore_unavailable=True, size=0)\<close>, whose other arguments are the same at every call.
\<close>

definition PAGESIZE :: int where
  "PAGESIZE = 250"

definition coordinates_script :: pyval where
  "coordinates_script =
     dict [(''script'',
            dict [(''lang'', PStr ''painless''),
                  (''source'', PStr ''doc['infos.coordinates'].value'')])]"

subsection \<open>\<^verbatim>\<open>distinct\<close>\<close>

text \<open>The three local functions \<^verbatim>\<open>fix_result\<close>.\<close>

definition fix_result_coordinates :: "env \<Rightarrow> pyval \<Rightarrow> error + pyval" where
  "fix_result_coordinates ev v =
     (case v of
        PStr s \<Rightarrow> and_then (try_map (py_float ev) (split_str '', '' s)) (\<lambda>vs. Inr (PTuple vs))
      | _ \<Rightarrow> Inl (AttributeError ''split''))"

definition fix_result_datetime :: "env \<Rightarrow> pyval \<Rightarrow> error + pyval" where
  "fix_result_datetime ev v = and_then (py_truediv ev v 1000) (all2datetime ev)"

definition fix_result_plain :: "pyval \<Rightarrow> error + pyval" where
  "fix_result_plain v = Inr v"

definition distinct_fix_result :: "env \<Rightarrow> string \<Rightarrow> pyval \<Rightarrow> error + pyval" where
  "distinct_fix_result ev field =
     (if field = ''infos.coordinates'' then fix_result_coordinates ev
      else if field \<in> set (datetime_fields ev) then fix_result_datetime ev
      else fix_result_plain)"

definition distinct_base_query :: "string \<Rightarrow> pyval" where
  "distinct_base_query field =
     (if field = ''infos.coordinates'' then coordinates_script
      else dict [(''field'', PStr field)])"

definition distinct_flt :: "string \<Rightarrow> query option \<Rightarrow> query" where
  "distinct_flt field flt =
     (let flt0 = (case flt of None \<Rightarrow> flt_empty | Some f \<Rightarrow> f)
      in if field = ''infos.coordinates'' then flt_and flt0 (searchhaslocation False) else flt0)"

text \<open>
  The dictionary \<^verbatim>\<open>query\<close> before the loop, and the body of a request:
  \<^verbatim>\<open>
  query = {"size": PAGESIZE, "sources": [{field: {"terms": base_query}}]}
  body = {"query": flt.to_dict(), "aggs": {"values": {"composite": query}}}
  \<close>
\<close>

definition distinct_query :: "string \<Rightarrow> (string, pyval) fmap" where
  "distinct_query field =
     fmap_of_list
       [(''size'', PInt PAGESIZE),
        (''sources'', PList [dict [(field, dict [(''terms'', distinct_base_query field)])]])]"

definition composite_body :: "pyval \<Rightarrow> (string, pyval) fmap \<Rightarrow> pyval" where
  "composite_body fltd query =
     dict [(''query'', fltd),
           (''aggs'', dict [(''values'', dict [(''composite'', PDict query)])])]"

text \<open>\<^verbatim>\<open>result["aggregations"]["values"]\<close>.\<close>

definition aggregation_values :: "pyval \<Rightarrow> error + pyval" where
  "aggregation_values result =
     and_then (py_getitem result ''aggregations'') (\<lambda>aggs. py_getitem aggs ''values'')"

text \<open>The buckets a \<^verbatim>\<open>for\<close> loop over \<^verbatim>\<open>result["aggregations"]["values"]["buckets"]\<close> visits.\<close>

definition page_buckets ::
  "((string, pyval) fmap \<Rightarrow> string list) \<Rightarrow> pyval \<Rightarrow> error + pyval list" where
  "page_buckets korder result =
     and_then (aggregation_values result) (\<lambda>vals.
     and_then (py_getitem vals ''buckets'') (py_iter korder))"

text \<open>\<^verbatim>\<open>fix_result(value['key'][field])\<close>.\<close>

definition bucket_value :: "(pyval \<Rightarrow> error + pyval) \<Rightarrow> string \<Rightarrow> pyval \<Rightarrow> error + pyval" where
  "bucket_value fix_result field bucket =
     and_then (py_getitem bucket ''key'') (\<lambda>key.
     and_then (py_getitem key field) fix_result)"

text \<open>
  What the loop does with one response: the values it yields, and then either an
  exception, or the end of the iteration (\<open>Inr None\<close>), or the token for the next request.
\<close>

definition distinct_page ::
  "((string, pyval) fmap \<Rightarrow> string list) \<Rightarrow> (pyval \<Rightarrow> error + pyval) \<Rightarrow> string \<Rightarrow> pyval \<Rightarrow>
   pyval list \<times> (error + pyval option)" where
  "distinct_page korder fix_result field result =
     (case page_buckets korder result of
        Inl e \<Rightarrow> ([], Inl e)
      | Inr buckets \<Rightarrow>
          (case gen_map (bucket_value fix_result field) buckets of
             (ys, Some e) \<Rightarrow> (ys, Inl e)
           | (ys, None) \<Rightarrow>
               (ys,
                and_then (aggregation_values result) (\<lambda>vals.
                and_then (py_contains ''after_key'' vals) (\<lambda>more.
                  if more then and_then (py_getitem vals ''after_key'') (\<lambda>k. Inr (Some k))
                  else Inr None)))))"

text \<open>
  The loop \<^verbatim>\<open>while True\<close>. The result is \<open>None\<close> when it never ends; otherwise the values
  yielded, the exception that ended the generator, if one did, and the state of the engine.
\<close>

partial_function (option) distinct_loop ::
  "('s \<Rightarrow> pyval \<Rightarrow> pyval \<times> 's) \<Rightarrow> ((string, pyval) fmap \<Rightarrow> string list) \<Rightarrow>
   (pyval \<Rightarrow> error + pyval) \<Rightarrow> string \<Rightarrow> pyval \<Rightarrow>
   (string, pyval) fmap \<Rightarrow> 's \<Rightarrow> (pyval list \<times> error option \<times> 's) option" where
  "distinct_loop search korder fix_result field fltd query s =
     (case search s (composite_body fltd query) of
        (result, s') \<Rightarrow>
          (case distinct_page korder fix_result field result of
             (ys, Inl e) \<Rightarrow> Some (ys, Some e, s')
           | (ys, Inr None) \<Rightarrow> Some (ys, None, s')
           | (ys, Inr (Some k)) \<Rightarrow>
               Option.bind
                 (distinct_loop search korder fix_result field fltd (fmupd ''after'' k query) s')
                 (\<lambda>(zs, r, s''). Some (ys @ zs, r, s''))))"

definition distinct_values ::
  "('s \<Rightarrow> pyval \<Rightarrow> pyval \<times> 's) \<Rightarrow> env \<Rightarrow> string \<Rightarrow> query option \<Rightarrow> 's \<Rightarrow>
   (pyval list \<times> error option \<times> 's) option" where
  "distinct_values search ev field flt s =
     distinct_loop search (key_order ev) (distinct_fix_result ev field) field
       (to_dict ev (distinct_flt field flt)) (distinct_query field) s"

subsection \<open>\<^verbatim>\<open>topvalues\<close>\<close>

definition as_script_source :: string where
  "as_script_source = ''doc['infos.as_num'].value + ', ' + doc['infos.as_name'].value''"

definition port_script_source :: string where
  "port_script_source = ''List result = new ArrayList();\<newline>for(item in params._source.ports) {\<newline>    if(item.port != -1) {\<newline>        result.add(item.protocol + '/' + item.port);\<newline>    }\<newline>}\<newline>return result;\<newline>''"

definition port_info_script_source :: string where
  "port_info_script_source = ''List result = new ArrayList();\<newline>for(item in params._source.ports) {\<newline>    if(item[params.field] == params.value) {\<newline>        result.add(item.protocol + '/' + item.port);\<newline>    }\<newline>}\<newline>return result;\<newline>''"

definition httphdr_script_source :: string where
  "httphdr_script_source = ''List result = new ArrayList();\<newline>for(item in params._source.ports) {\<newline>    if (item.containsKey('scripts')) {\<newline>        for(script in item.scripts) {\<newline>            if(script.id == 'http-headers' &&\<newline>               script.containsKey('http-headers')) {\<newline>                for(hdr in script['http-headers']) {\<newline>                    result.add(hdr.name + ':' + hdr.value);\<newline>                }\<newline>            }\<newline>        }\<newline>    }\<newline>}\<newline>return result;\<newline>''"

definition httphdr_name_script_source :: string where
  "httphdr_name_script_source = ''List result = new ArrayList();\<newline>for(item in params._source.ports) {\<newline>    if (item.containsKey('scripts')) {\<newline>        for(script in item.scripts) {\<newline>            if(script.id == 'http-headers' &&\<newline>               script.containsKey('http-headers')) {\<newline>                for(hdr in script['http-headers']) {\<newline>                    if (hdr.name == params.name) {\<newline>                        result.add(hdr.value);\<newline>                    }\<newline>                }\<newline>            }\<newline>        }\<newline>    }\<newline>}\<newline>return result;\<newline>''"

text \<open>The three local functions \<^verbatim>\<open>outputproc\<close>.\<close>

definition outputproc_as :: "pyval \<Rightarrow> error + pyval" where
  "outputproc_as v =
     (case v of
        PStr s \<Rightarrow>
          (case split_once '', '' s of
             [] \<Rightarrow> Inr (PTuple [])
           | val # vals \<Rightarrow>
               and_then (py_int (PStr val)) (\<lambda>n. Inr (PTuple (PInt n # map PStr vals))))
      | _ \<Rightarrow> Inl (AttributeError ''split''))"

definition outputproc_port :: "pyval \<Rightarrow> error + pyval" where
  "outputproc_port v =
     (case v of
        PStr s \<Rightarrow>
          (case split_once ''/'' s of
             [] \<Rightarrow> Inr (PTuple [])
           | val # vals \<Rightarrow>
               and_then (try_map (\<lambda>x. py_int (PStr x)) vals)
                 (\<lambda>ns. Inr (PTuple (PStr val # map PInt ns))))
      | _ \<Rightarrow> Inl (AttributeError ''split''))"

definition outputproc_httphdr :: "pyval \<Rightarrow> error + pyval" where
  "outputproc_httphdr v =
     (case v of
        PStr s \<Rightarrow> Inr (PTuple (map PStr (split_once '':'' s)))
      | _ \<Rightarrow> Inl (AttributeError ''split''))"

text \<open>
  What the chain of tests on \<^verbatim>\<open>field\<close> leaves in the variables \<^verbatim>\<open>flt\<close>, \<^verbatim>\<open>field\<close>,
  \<^verbatim>\<open>nested\<close> and \<^verbatim>\<open>outputproc\<close>.
\<close>

record dispatch =
  d_flt :: query
  d_field :: "(string, pyval) fmap"
  d_nested :: "pyval option"
  d_outputproc :: "(pyval \<Rightarrow> error + pyval) option"

definition script_field :: "string \<Rightarrow> (string, pyval) fmap" where
  "script_field source =
     fmap_of_list [(''script'', dict [(''lang'', PStr ''painless''), (''source'', PStr source)])]"

definition script_field_params :: "string \<Rightarrow> pyval \<Rightarrow> (string, pyval) fmap" where
  "script_field_params source params =
     fmap_of_list
       [(''script'',
         dict [(''lang'', PStr ''painless''), (''source'', PStr source), (''params'', params)])]"

definition topvalues_dispatch :: "env \<Rightarrow> string \<Rightarrow> query \<Rightarrow> error + dispatch" where
  "topvalues_dispatch ev field flt =
     (if field = ''asnum'' then
        Inr \<lparr>d_flt = flt_and flt (Q ''exists'' ''field'' (PStr ''infos.as_num'')),
             d_field = fmap_of_list [(''field'', PStr ''infos.as_num'')],
             d_nested = None, d_outputproc = None\<rparr>
      else if field = ''as'' then
        Inr \<lparr>d_flt = flt_and flt (Q ''exists'' ''field'' (PStr ''infos.as_num'')),
             d_field = script_field as_script_source,
             d_nested = None, d_outputproc = Some outputproc_as\<rparr>
      else if field = ''port'' \<or> take 5 field = ''port:'' then
        (if field = ''port'' then
           Inr \<lparr>d_flt = flt_and flt
                        (QNested ''ports'' (Q ''exists'' ''field'' (PStr ''ports.port''))),
                d_field = script_field port_script_source,
                d_nested = None, d_outputproc = Some outputproc_port\<rparr>
         else
           (let info = drop 5 field
            in if info \<in> set [''open'', ''filtered'', ''closed''] then
                 Inr \<lparr>d_flt = flt_and flt
                              (QNested ''ports'' (Q ''match'' ''ports.state_state'' (PStr info))),
                      d_field = script_field_params port_info_script_source
                                  (dict [(''field'', PStr ''state_state''), (''value'', PStr info)]),
                      d_nested = None, d_outputproc = Some outputproc_port\<rparr>
               else
                 Inr \<lparr>d_flt = flt_and flt
                              (QNested ''ports'' (Q ''match'' ''ports.service_name'' (PStr info))),
                      d_field = script_field_params port_info_script_source
                                  (dict [(''field'', PStr ''service_name''), (''value'', PStr info)]),
                      d_nested = None, d_outputproc = Some outputproc_port\<rparr>))
      else if field = ''httphdr'' then
        and_then
          (searchscript (regexp2pattern ev) (aliases_table_elems ev) (rx_str ev)
             (Some (Str ''http-headers'')) None None False)
          (\<lambda>scr.
             Inr \<lparr>d_flt = flt_and flt scr,
                  d_field = script_field httphdr_script_source,
                  d_nested = None, d_outputproc = Some outputproc_httphdr\<rparr>)
      else if take 8 field = ''httphdr.'' then
        and_then
          (searchscript (regexp2pattern ev) (aliases_table_elems ev) (rx_str ev)
             (Some (Str ''http-headers'')) None None False)
          (\<lambda>scr.
             (let fld = fmap_of_list
                          [(''field'', PStr (''ports.scripts.http-headers.'' @ drop 8 field))]
              in Inr \<lparr>d_flt = flt_and flt scr,
                      d_field = fld,
                      d_nested = Some
                        (dict [(''nested'', dict [(''path'', PStr ''ports'')]),
                               (''aggs'', dict [(''patterns'',
                                  dict [(''nested'', dict [(''path'', PStr ''ports.scripts'')]),
                                        (''aggs'', dict [(''patterns'',
                                           dict [(''terms'', PDict fld)])])])])]),
                      d_outputproc = None\<rparr>))
      else if take 8 field = ''httphdr:'' then
        (let subfield = lower (drop 8 field)
         in and_then
              (searchscript (regexp2pattern ev) (aliases_table_elems ev) (rx_str ev)
                 (Some (Str ''http-headers'')) None
                 (Some (VItems [(''name'', Val (PStr subfield))])) False)
              (\<lambda>scr.
                 Inr \<lparr>d_flt = flt_and flt scr,
                      d_field = script_field_params httphdr_name_script_source
                                  (dict [(''name'', PStr subfield)]),
                      d_nested = None, d_outputproc = None\<rparr>))
      else
        Inr \<lparr>d_flt = flt, d_field = fmap_of_list [(''field'', PStr field)],
             d_nested = None, d_outputproc = None\<rparr>)"

text \<open>
  The request body:
  \<^verbatim>\<open>
  body = {"query": flt.to_dict()}
  if nested is None:
      body["aggs"] = {"patterns": {"terms": dict(field, size=topnbr)}}
  else:
      body["aggs"] = {"patterns": nested}
  \<close>
\<close>

definition topvalues_body :: "env \<Rightarrow> dispatch \<Rightarrow> int \<Rightarrow> pyval" where
  "topvalues_body ev d topnbr =
     dict [(''query'', to_dict ev (d_flt d)),
           (''aggs'',
              (case d_nested d of
                 None \<Rightarrow>
                   dict [(''patterns'',
                          dict [(''terms'', PDict (fmupd ''size'' (PInt topnbr) (d_field d)))])]
               | Some nested \<Rightarrow> dict [(''patterns'', nested)]))]"

text \<open>
  The loop \<^verbatim>\<open>while 'patterns' in result: result = result['patterns']\<close>; it follows the
  nesting of a finite value and always ends.
\<close>

primrec descend_patterns :: "pyval \<Rightarrow> error + pyval" where
  "descend_patterns PNone = Inl (TypeError ''argument is not iterable'')"
| "descend_patterns (PBool b) = Inl (TypeError ''argument is not iterable'')"
| "descend_patterns (PInt n) = Inl (TypeError ''argument is not iterable'')"
| "descend_patterns (PFloat r) = Inl (TypeError ''argument is not iterable'')"
| "descend_patterns (PStr s) =
     (if str_contains ''patterns'' s then Inl (TypeError ''string indices must be integers'')
      else Inr (PStr s))"
| "descend_patterns (PList xs) =
     (if PStr ''patterns'' \<in> set xs then Inl (TypeError ''list indices must be integers'')
      else Inr (PList xs))"
| "descend_patterns (PTuple xs) =
     (if PStr ''patterns'' \<in> set xs then Inl (TypeError ''tuple indices must be integers'')
      else Inr (PTuple xs))"
| "descend_patterns (PDict m) =
     (case fmlookup (fmmap descend_patterns m) ''patterns'' of
        None \<Rightarrow> Inr (PDict m)
      | Some r \<Rightarrow> r)"

definition topvalues_buckets ::
  "((string, pyval) fmap \<Rightarrow> string list) \<Rightarrow> pyval \<Rightarrow> error + pyval list" where
  "topvalues_buckets korder result =
     and_then (py_getitem result ''aggregations'') (\<lambda>aggs.
     and_then (descend_patterns aggs) (\<lambda>leaf.
     and_then (py_getitem leaf ''buckets'') (py_iter korder)))"

text \<open>\<^verbatim>\<open>{'_id': outputproc(res['key']), 'count': res['doc_count']}\<close>.\<close>

definition topvalues_item :: "(pyval \<Rightarrow> error + pyval) option \<Rightarrow> pyval \<Rightarrow> error + pyval" where
  "topvalues_item outputproc res =
     and_then (py_getitem res ''key'') (\<lambda>key.
     and_then (case outputproc of None \<Rightarrow> Inr key | Some f \<Rightarrow> f key) (\<lambda>ident.
     and_then (py_getitem res ''doc_count'') (\<lambda>cnt.
       Inr (dict [(''_id'', ident), (''count'', cnt)]))))"

text \<open>
  \<^verbatim>\<open>topvalues(field, flt=None, topnbr=10)\<close>: the values yielded, the exception that ended
  the generator, if one did, and the state of the engine. (An exception raised before the
  request leaves the state as it was.)
\<close>

definition topvalues ::
  "('s \<Rightarrow> pyval \<Rightarrow> pyval \<times> 's) \<Rightarrow> env \<Rightarrow> string \<Rightarrow> query option \<Rightarrow> int \<Rightarrow> 's \<Rightarrow>
   pyval list \<times> error option \<times> 's" where
  "topvalues search ev field flt topnbr s =
     (case topvalues_dispatch ev field (case flt of None \<Rightarrow> flt_empty | Some f \<Rightarrow> f) of
        Inl e \<Rightarrow> ([], Some e, s)
      | Inr d \<Rightarrow>
          (case search s (topvalues_body ev d topnbr) of
             (result, s') \<Rightarrow>
               (case topvalues_buckets (key_order ev) result of
                  Inl e \<Rightarrow> ([], Some e, s')
                | Inr buckets \<Rightarrow>
                    (case gen_map (topvalues_item (d_outputproc d)) buckets of
                       (ys, r) \<Rightarrow> (ys, r, s')))))"

section \<open>Notions used to state the properties\<close>

subsection \<open>Coordinates of a host\<close>

text \<open>The value of \<^verbatim>\<open>infos.coordinates\<close> in a host document, if it has one.\<close>

definition coordinates_of :: "pyval \<Rightarrow> pyval option" where
  "coordinates_of host =
     (case host of
        PDict h \<Rightarrow>
          (case fmlookup h ''infos'' of
             Some (PDict i) \<Rightarrow> fmlookup i ''coordinates''
           | _ \<Rightarrow> None)
      | _ \<Rightarrow> None)"

subsection \<open>Ancestors among dotted field paths\<close>

text \<open>\<open>dotted_prefix a b\<close>: the path \<open>b\<close> is \<open>a\<close>, a dot, and more.\<close>

definition dotted_prefix :: "string \<Rightarrow> string \<Rightarrow> bool" where
  "dotted_prefix a b = (take (Suc (length a)) b = a @ ''.'')"

fun join_dots :: "string list \<Rightarrow> string" where
  "join_dots [] = []"
| "join_dots [w] = w"
| "join_dots (w # v # ws) = w @ ''.'' @ join_dots (v # ws)"

subsection \<open>The conditions of a script search, as the specification words them\<close>

text \<open>
  The specification of \<^verbatim>\<open>searchscript\<close>: the host matches if some port has some script
  satisfying all given sub-predicates (id match or regex, output match or regex, structured
  field values); \<^verbatim>\<open>values\<close> may be a raw sub-predicate, a literal string (matched against
  a name-derived default subfield), a regex, or a field-to-value mapping (each value
  independently literal or regex). \<open>script_conditions\<close> lists these sub-predicates and
  \<open>conjoin\<close> is their conjunction.
\<close>

definition conjoin :: "query list \<Rightarrow> query" where
  "conjoin qs = foldl QAnd QEmpty qs"

definition script_conditions ::
  "(regexp \<Rightarrow> string \<times> int) \<Rightarrow> (string \<Rightarrow> string option) \<Rightarrow> (regexp \<Rightarrow> string) \<Rightarrow>
   strpat option \<Rightarrow> strpat option \<Rightarrow> script_values option \<Rightarrow> query list" where
  "script_conditions r2p aliases rxs name output vals =
     (case name of
        None \<Rightarrow> []
      | Some (Str s) \<Rightarrow> [Q ''match'' ''ports.scripts.id'' (PStr s)]
      | Some (Rx rx) \<Rightarrow> [Q ''regexp'' ''ports.scripts.id'' (PStr (get_pattern r2p rx))])
     @ (case output of
        None \<Rightarrow> []
      | Some (Str s) \<Rightarrow> [Q ''match'' ''ports.scripts.output'' (PStr s)]
      | Some (Rx rx) \<Rightarrow> [Q ''regexp'' ''ports.scripts.output'' (PStr (get_pattern r2p rx))])
     @ (case (name, vals) of
          (Some n, Some (VQuery q)) \<Rightarrow> [q]
        | (Some n, Some (VStr s)) \<Rightarrow>
            [Q ''match'' (''ports.scripts.'' @ subfield_of aliases rxs n) (PStr s)]
        | (Some n, Some (VRx rx)) \<Rightarrow>
            [Q ''regexp'' (''ports.scripts.'' @ subfield_of aliases rxs n)
               (PStr (get_pattern r2p rx))]
        | (Some n, Some (VItems items)) \<Rightarrow>
            map (\<lambda>(field, v).
                   (case v of
                      Val x \<Rightarrow>
                        Q ''match'' (''ports.scripts.'' @ subfield_of aliases rxs n @ ''.'' @ field) x
                    | ValRx rx \<Rightarrow>
                        Q ''regexp'' (''ports.scripts.'' @ subfield_of aliases rxs n @ ''.'' @ field)
                          (PStr (get_pattern r2p rx))))
              items
        | _ \<Rightarrow> [])"

text \<open>The query that the final loop of \<^verbatim>\<open>searchscript\<close> makes of an entry of \<^verbatim>\<open>req\<close>.\<close>

definition req_query :: "req_item \<Rightarrow> query" where
  "req_query subreq =
     (case subreq of
        Sub q \<Rightarrow> q
      | Triple kind field v \<Rightarrow> Q kind (''ports.scripts.'' @ field) v)"

text \<open>The list \<^verbatim>\<open>req\<close> of \<^verbatim>\<open>searchscript\<close> when it raises nothing.\<close>

definition script_req ::
  "(regexp \<Rightarrow> string \<times> int) \<Rightarrow> (string \<Rightarrow> string option) \<Rightarrow> (regexp \<Rightarrow> string) \<Rightarrow>
   strpat option \<Rightarrow> strpat option \<Rightarrow> script_values option \<Rightarrow> req_item list" where
  "script_req r2p aliases rxs name output vals =
     name_req r2p ''id'' name @ name_req r2p ''output'' output @
     (case (name, vals) of
        (Some n, Some v) \<Rightarrow> values_req r2p (subfield_of aliases rxs n) v
      | _ \<Rightarrow> [])"

subsection \<open>The requests of a pagination\<close>

text \<open>\<^verbatim>\<open>obj[k1][k2]...[kn]\<close> for string keys.\<close>

fun py_path :: "pyval \<Rightarrow> string list \<Rightarrow> error + pyval" where
  "py_path v [] = Inr v"
| "py_path v (k # ks) = and_then (py_getitem v k) (\<lambda>w. py_path w ks)"

text \<open>
  One turn of the loop of \<^verbatim>\<open>distinct\<close>, seen from the dictionary \<^verbatim>\<open>query\<close> and the state
  of the engine: the request is sent, and the token of the response, when it has one,
  becomes the entry \<^verbatim>\<open>after\<close>.
\<close>

definition page_step ::
  "('s \<Rightarrow> pyval \<Rightarrow> pyval \<times> 's) \<Rightarrow> ((string, pyval) fmap \<Rightarrow> string list) \<Rightarrow>
   (pyval \<Rightarrow> error + pyval) \<Rightarrow> string \<Rightarrow> pyval \<Rightarrow>
   (string, pyval) fmap \<times> 's \<Rightarrow> (string, pyval) fmap \<times> 's" where
  "page_step search korder fix_result field fltd qs =
     (case search (snd qs) (composite_body fltd (fst qs)) of
        (result, s') \<Rightarrow>
          (case snd (distinct_page korder fix_result field result) of
             Inr (Some k) \<Rightarrow> (fmupd ''after'' k (fst qs), s')
           | _ \<Rightarrow> (fst qs, s')))"

fun page_at ::
  "('s \<Rightarrow> pyval \<Rightarrow> pyval \<times> 's) \<Rightarrow> ((string, pyval) fmap \<Rightarrow> string list) \<Rightarrow>
   (pyval \<Rightarrow> error + pyval) \<Rightarrow> string \<Rightarrow> pyval \<Rightarrow>
   (string, pyval) fmap \<Rightarrow> 's \<Rightarrow> nat \<Rightarrow> (string, pyval) fmap \<times> 's" where
  "page_at search korder fix_result field fltd query s 0 = (query, s)"
| "page_at search korder fix_result field fltd query s (Suc n) =
     page_step search korder fix_result field fltd
       (page_at search korder fix_result field fltd query s n)"

text \<open>
  For a call \<^verbatim>\<open>distinct(field, flt)\<close> on an engine in state \<open>s\<close>, and counting requests
  from 0: the dictionary \<^verbatim>\<open>query\<close> when request \<open>n\<close> is made and the state of the engine
  then, the body of request \<open>n\<close>, the response to it with the state that follows, and what
  the loop makes of that response (the values it yields, and the exception, the end or the
  token).
\<close>

definition distinct_composite ::
  "('s \<Rightarrow> pyval \<Rightarrow> pyval \<times> 's) \<Rightarrow> env \<Rightarrow> string \<Rightarrow> query option \<Rightarrow> 's \<Rightarrow> nat \<Rightarrow>
   (string, pyval) fmap" where
  "distinct_composite search ev field flt s n =
     fst (page_at search (key_order ev) (distinct_fix_result ev field) field
            (to_dict ev (distinct_flt field flt)) (distinct_query field) s n)"

definition distinct_state ::
  "('s \<Rightarrow> pyval \<Rightarrow> pyval \<times> 's) \<Rightarrow> env \<Rightarrow> string \<Rightarrow> query option \<Rightarrow> 's \<Rightarrow> nat \<Rightarrow> 's" where
  "distinct_state search ev field flt s n =
     snd (page_at search (key_order ev) (distinct_fix_result ev field) field
            (to_dict ev (distinct_flt field flt)) (distinct_query field) s n)"

definition distinct_request ::
  "('s \<Rightarrow> pyval \<Rightarrow> pyval \<times> 's) \<Rightarrow> env \<Rightarrow> string \<Rightarrow> query option \<Rightarrow> 's \<Rightarrow> nat \<Rightarrow> pyval" where
  "distinct_request search ev field flt s n =
     composite_body (to_dict ev (distinct_flt field flt))
       (distinct_composite search ev field flt s n)"

definition distinct_response ::
  "('s \<Rightarrow> pyval \<Rightarrow> pyval \<times> 's) \<Rightarrow> env \<Rightarrow> string \<Rightarrow> query option \<Rightarrow> 's \<Rightarrow> nat \<Rightarrow> pyval \<times> 's" where
  "distinct_response search ev field flt s n =
     search (distinct_state search ev field flt s n) (distinct_request search ev field flt s n)"

definition distinct_outcome ::
  "('s \<Rightarrow> pyval \<Rightarrow> pyval \<times> 's) \<Rightarrow> env \<Rightarrow> string \<Rightarrow> query option \<Rightarrow> 's \<Rightarrow> nat \<Rightarrow>
   pyval list \<times> (error + pyval option)" where
  "distinct_outcome search ev field flt s n =
     distinct_page (key_order ev) (distinct_fix_result ev field) field
       (fst (distinct_response search ev field flt s n))"

text \<open>
  To state which requests a call makes, an engine is made to keep, beside its state, the
  list of the bodies it has received.
\<close>

definition logging ::
  "('s \<Rightarrow> pyval \<Rightarrow> pyval \<times> 's) \<Rightarrow> 's \<times> pyval list \<Rightarrow> pyval \<Rightarrow> pyval \<times> ('s \<times> pyval list)" where
  "logging search sl body =
     (case search (fst sl) body of (result, s') \<Rightarrow> (result, (s', snd sl @ [body])))"

subsection \<open>The effect of one field on the tree\<close>

text \<open>
  \<open>ancestor_first flds\<close>: in the list \<open>flds\<close> no path comes after a path that extends it,
  that is, every path comes before all its descendants.
\<close>

fun ancestor_first :: "string list \<Rightarrow> bool" where
  "ancestor_first [] = True"
| "ancestor_first (fld # flds) =
     ((\<forall>later\<in>set flds. \<not> dotted_prefix later fld) \<and> ancestor_first flds)"

text \<open>
  The trees that \<^verbatim>\<open>_create_mappings\<close> builds: every entry of a dictionary is a node, which
  is a dictionary, and the entry \<^verbatim>\<open>properties\<close> of a node, when it has one, is again such
  a tree.
\<close>

inductive mapping_tree :: "(string, pyval) fmap \<Rightarrow> bool" where
  "(\<And>k v. fmlookup m k = Some v \<Longrightarrow>
      \<exists>node. v = PDict node \<and>
        (fmlookup node ''properties'' = None \<or>
         (\<exists>props. fmlookup node ''properties'' = Some (PDict props) \<and> mapping_tree props)))
   \<Longrightarrow> mapping_tree m"

text \<open>
  On such a tree the walk raises nothing, and what one turn of the outer loop does to the
  dictionary at the cursor is the function \<open>place\<close>: the test of the inner loop is
  \<open>nested_at\<close>, the dictionary the cursor moves to is \<open>properties_at\<close>, and
  \<open>with_properties\<close> puts a dictionary back as the entry \<^verbatim>\<open>properties\<close> of a node.
\<close>

definition nested_at :: "(string, pyval) fmap \<Rightarrow> string \<Rightarrow> bool" where
  "nested_at cur k =
     (case fmlookup cur k of
        Some (PDict node) \<Rightarrow> fmlookup node ''type'' = Some (PStr ''nested'')
      | _ \<Rightarrow> False)"

definition properties_at :: "(string, pyval) fmap \<Rightarrow> string \<Rightarrow> (string, pyval) fmap" where
  "properties_at cur k =
     (case fmlookup cur k of
        Some (PDict node) \<Rightarrow>
          (case fmlookup node ''properties'' of Some (PDict props) \<Rightarrow> props | _ \<Rightarrow> fmempty)
      | _ \<Rightarrow> fmempty)"

definition with_properties ::
  "(string, pyval) fmap \<Rightarrow> string \<Rightarrow> (string, pyval) fmap \<Rightarrow> (string, pyval) fmap" where
  "with_properties cur k props =
     fmupd k
       (PDict (fmupd ''properties'' (PDict props)
                 (case fmlookup cur k of Some (PDict node) \<Rightarrow> node | _ \<Rightarrow> fmempty)))
       cur"

fun place ::
  "pyval \<Rightarrow> string \<Rightarrow> string option \<Rightarrow> string list \<Rightarrow> (string, pyval) fmap \<Rightarrow>
   (string, pyval) fmap" where
  "place v lst ck [] cur = fmupd (join_key ck lst) v cur"
| "place v lst ck (seg # segs) cur =
     (if nested_at cur (join_key ck seg)
      then with_properties cur (join_key ck seg)
             (place v lst None segs (properties_at cur (join_key ck seg)))
      else place v lst (Some (join_key ck seg)) segs cur)"

text \<open>
  The first nested node that the walk meets: its key and the segments left, or \<open>None\<close>
  when the walk stays in the dictionary where it started.
\<close>

fun first_nested ::
  "(string, pyval) fmap \<Rightarrow> string option \<Rightarrow> string list \<Rightarrow> (string \<times> string list) option" where
  "first_nested cur ck [] = None"
| "first_nested cur ck (seg # segs) =
     (if nested_at cur (join_key ck seg) then Some (join_key ck seg, segs)
      else first_nested cur (Some (join_key ck seg)) segs)"

text \<open>The path that the walk has still to place, relative to the dictionary at the cursor.\<close>

definition rel_path :: "string option \<Rightarrow> string list \<Rightarrow> string \<Rightarrow> string" where
  "rel_path ck segs lst = join_key ck (join_dots (segs @ [lst]))"

text \<open>The function \<open>place\<close> for a field and its type, and for a list of fields.\<close>

definition place_field ::
  "string \<Rightarrow> (string, pyval) fmap \<Rightarrow> string \<Rightarrow> (string, pyval) fmap" where
  "place_field fldtype res fld =
     place (dict [(''type'', PStr fldtype)]) (rsplit_last CHR ''.'' fld) None
       (butlast (split_on CHR ''.'' fld)) res"

subsection \<open>An environment and an engine for examples\<close>

text \<open>A rendering of queries as dictionaries, in the manner of the library.\<close>

primrec render_query :: "query \<Rightarrow> pyval" where
  "render_query QEmpty = dict [(''match_all'', dict [])]"
| "render_query (Q kind field v) = dict [(kind, dict [(field, v)])]"
| "render_query (QNested path q) =
     dict [(''nested'', dict [(''path'', PStr path), (''query'', render_query q)])]"
| "render_query (QNot q) = dict [(''bool'', dict [(''must_not'', PList [render_query q])])]"
| "render_query (QAnd p q) =
     dict [(''bool'', dict [(''must'', PList [render_query p, render_query q])])]"
| "render_query (QOr p q) =
     dict [(''bool'', dict [(''should'', PList [render_query p, render_query q])])]"

definition sample_env :: env where
  "sample_env =
     \<lparr>to_dict = render_query,
      datetime_fields = [''starttime'', ''endtime''],
      all2datetime = (\<lambda>v. Inr v),
      py_float = (\<lambda>s. Inr (PStr s)),
      py_truediv = (\<lambda>v n. Inr v),
      regexp2pattern = (\<lambda>rx. (rx_pattern rx, rx_flags rx)),
      aliases_table_elems = (\<lambda>s. None),
      rx_str = rx_pattern,
      key_order = (\<lambda>m. sorted_list_of_fset (fmdom m))\<rparr>"

text \<open>An engine that numbers the documents and lets every query match every document.\<close>

definition sample_engine :: engine where
  "sample_engine =
     \<lparr>assign_id = (\<lambda>st. PInt (int (length st))),
      matches = (\<lambda>q doc. True),
      source_filter = (\<lambda>flds doc. doc)\<rparr>"

text \<open>The host of the specification's scenario.\<close>

definition sample_host :: pyval where
  "sample_host =
     dict [(''addr'', PStr ''1.2.3.4''),
           (''infos'',
            dict [(''country_code'', PStr ''FR''),
                  (''coordinates'', PList [PFloat 48.85, PFloat 2.35])])]"

text \<open>
  A response to a doubly nested terms aggregation, with two buckets, and an engine that
  gives it to every request and keeps the requests it received.
\<close>

definition sample_nested_response :: pyval where
  "sample_nested_response =
     dict [(''aggregations'',
       dict [(''patterns'',
         dict [(''doc_count'', PInt 3),
               (''patterns'',
                 dict [(''doc_count'', PInt 4),
                       (''patterns'',
                         dict [(''buckets'',
                           PList [dict [(''key'', PStr ''server''), (''doc_count'', PInt 2)],
                                  dict [(''key'', PStr ''date''), (''doc_count'', PInt 1)]])])])])])]"

definition recording_search :: "pyval list \<Rightarrow> pyval \<Rightarrow> pyval \<times> pyval list" where
  "recording_search s body = (sample_nested_response, s @ [body])"

text \<open>
  An engine with two pages of AS numbers: its state counts the requests, the first
  response carries a token and the later ones do not.
\<close>

definition sample_page :: "int \<Rightarrow> pyval option \<Rightarrow> pyval" where
  "sample_page asnum token =
     dict [(''aggregations'',
       dict [(''values'',
         PDict (fmap_of_list
           ([(''buckets'',
              PList [dict [(''key'', dict [(''infos.as_num'', PInt asnum)]),
                           (''doc_count'', PInt 1)]])]
            @ (case token of None \<Rightarrow> [] | Some k \<Rightarrow> [(''after_key'', k)]))))])]"

definition two_pages :: "nat \<Rightarrow> pyval \<Rightarrow> pyval \<times> nat" where
  "two_pages s body =
     (if s = 0 then sample_page 8075 (Some (dict [(''infos.as_num'', PInt 8075)]))
      else sample_page 15169 None,
      Suc s)"

section \<open>Properties of the predicate builders\<close>

subsection \<open>\<^verbatim>\<open>searchhost\<close> and the flag \<^verbatim>\<open>neg\<close>\<close>

text \<open>
  Claim C3. Every \<^verbatim>\<open>search*\<close> builder takes a flag \<^verbatim>\<open>neg\<close> and returns the negation of
  its positive predicate when the flag is set; in particular
  \<^verbatim>\<open>searchhost(addr, neg=True)\<close> is the negation of \<^verbatim>\<open>searchhost(addr, neg=False)\<close>.

  The code of \<^verbatim>\<open>searchhost\<close> does not read the flag: for the address 192.0.2.1 the call
  with \<^verbatim>\<open>neg=True\<close> returns the positive predicate, the very value of the call with
  \<^verbatim>\<open>neg=False\<close>, and not its negation.
\<close>

theorem searchhost_ignores_neg:
  "searchhost (PStr ''192.0.2.1'') True = Q ''match'' ''addr'' (PStr ''192.0.2.1'')
   \<and> searchhost (PStr ''192.0.2.1'') True = searchhost (PStr ''192.0.2.1'') False
   \<and> searchhost (PStr ''192.0.2.1'') True \<noteq> QNot (searchhost (PStr ''192.0.2.1'') False)"
  by (simp add: searchhost_def)

subsection \<open>\<^verbatim>\<open>searchscript\<close>\<close>

lemma and_req_alt: "and_req q r = QAnd q (req_query r)"
  by (cases r) (simp_all add: and_req_def req_query_def)

lemma foldl_and_req: "foldl and_req q req = foldl QAnd q (map req_query req)"
  by (induction req arbitrary: q) (simp_all add: and_req_alt)

lemma name_req_id:
  "map req_query (name_req r2p ''id'' arg) =
     (case arg of
        None \<Rightarrow> []
      | Some (Str s) \<Rightarrow> [Q ''match'' ''ports.scripts.id'' (PStr s)]
      | Some (Rx rx) \<Rightarrow> [Q ''regexp'' ''ports.scripts.id'' (PStr (get_pattern r2p rx))])"
  by (simp add: name_req_def req_query_def split: option.splits strpat.splits)

lemma name_req_output:
  "map req_query (name_req r2p ''output'' arg) =
     (case arg of
        None \<Rightarrow> []
      | Some (Str s) \<Rightarrow> [Q ''match'' ''ports.scripts.output'' (PStr s)]
      | Some (Rx rx) \<Rightarrow> [Q ''regexp'' ''ports.scripts.output'' (PStr (get_pattern r2p rx))])"
  by (simp add: name_req_def req_query_def split: option.splits strpat.splits)

lemma values_req_query:
  "map req_query (values_req r2p sub v) =
     (case v of
        VQuery q \<Rightarrow> [q]
      | VStr s \<Rightarrow> [Q ''match'' (''ports.scripts.'' @ sub) (PStr s)]
      | VRx rx \<Rightarrow> [Q ''regexp'' (''ports.scripts.'' @ sub) (PStr (get_pattern r2p rx))]
      | VItems items \<Rightarrow>
          map (\<lambda>(field, v).
                 (case v of
                    Val x \<Rightarrow> Q ''match'' (''ports.scripts.'' @ sub @ ''.'' @ field) x
                  | ValRx rx \<Rightarrow>
                      Q ''regexp'' (''ports.scripts.'' @ sub @ ''.'' @ field)
                        (PStr (get_pattern r2p rx))))
            items)"
  by (cases v) (auto simp: values_req_def req_query_def item_req_def split: valpat.splits)

lemma script_req_conditions:
  "map req_query (script_req r2p aliases rxs name output vals) =
     script_conditions r2p aliases rxs name output vals"
  unfolding script_req_def script_conditions_def map_append name_req_id name_req_output
  by (cases name; cases vals) (simp_all add: values_req_query split: script_values.splits)

lemma searchscript_req:
  assumes "vals = None \<or> name \<noteq> None"
  shows "searchscript r2p aliases rxs name output vals neg =
       Inr (negate_if neg
         (case script_req r2p aliases rxs name output vals of
            [] \<Rightarrow>
              QNested ''ports''
                (QNested ''ports.scripts'' (Q ''exists'' ''field'' (PStr ''ports.scripts'')))
          | _ # _ \<Rightarrow>
              QNested ''ports''
                (QNested ''ports.scripts''
                  (foldl and_req QEmpty (script_req r2p aliases rxs name output vals)))))"
  using assms
  by (cases name; cases vals)
     (simp_all add: searchscript_def Let_def script_req_def cong: list.case_cong)

text \<open>
  Claim C4, as amended. For every combination of the arguments \<^verbatim>\<open>name\<close>, \<^verbatim>\<open>output\<close> and
  \<^verbatim>\<open>values\<close> other than \<^verbatim>\<open>values\<close> without \<^verbatim>\<open>name\<close>, \<^verbatim>\<open>searchscript\<close> returns a predicate
  wrapped in two nested-query levels, path \<^verbatim>\<open>ports\<close> then path \<^verbatim>\<open>ports.scripts\<close>, with all
  the given sub-predicates conjoined inside the inner level; with no sub-predicate at all it
  returns the doubly nested existence predicate. (With \<^verbatim>\<open>neg\<close> set it returns the negation
  of that predicate.)
\<close>

theorem searchscript_double_nested:
  assumes "vals = None \<or> name \<noteq> None"
  shows "searchscript r2p aliases rxs name output vals neg =
     Inr (negate_if neg
       (QNested ''ports''
         (QNested ''ports.scripts''
           (case script_conditions r2p aliases rxs name output vals of
              [] \<Rightarrow> Q ''exists'' ''field'' (PStr ''ports.scripts'')
            | c # cs \<Rightarrow> conjoin (c # cs)))))"
proof (cases "script_req r2p aliases rxs name output vals")
  case Nil
  with script_req_conditions[of r2p aliases rxs name "output" vals]
  have "script_conditions r2p aliases rxs name output vals = []" by simp
  with Nil searchscript_req[OF assms, of r2p aliases rxs "output" neg] show ?thesis by simp
next
  case (Cons a as)
  with script_req_conditions[of r2p aliases rxs name "output" vals]
  have c: "script_conditions r2p aliases rxs name output vals = req_query a # map req_query as"
    by simp
  have "foldl and_req QEmpty (a # as) = conjoin (req_query a # map req_query as)"
    by (simp add: conjoin_def foldl_and_req and_req_alt)
  with Cons c searchscript_req[OF assms, of r2p aliases rxs "output" neg] show ?thesis by simp
qed

theorem searchscript_double_nested_witness:
  "searchscript (regexp2pattern sample_env) (aliases_table_elems sample_env) (rx_str sample_env)
     (Some (Str ''http-headers'')) None (Some (VItems [(''name'', Val (PStr ''server''))])) False =
     Inr (QNested ''ports''
           (QNested ''ports.scripts''
             (QAnd (QAnd QEmpty (Q ''match'' ''ports.scripts.id'' (PStr ''http-headers'')))
                (Q ''match'' ''ports.scripts.http-headers.name'' (PStr ''server'')))))
   \<and> searchscript (regexp2pattern sample_env) (aliases_table_elems sample_env) (rx_str sample_env)
     None None None False =
     Inr (QNested ''ports''
           (QNested ''ports.scripts'' (Q ''exists'' ''field'' (PStr ''ports.scripts''))))"
  using searchscript_double_nested[of "Some (VItems [(''name'', Val (PStr ''server''))])"
          "Some (Str ''http-headers'')" "regexp2pattern sample_env"
          "aliases_table_elems sample_env" "rx_str sample_env" None False]
        searchscript_double_nested[of None None "regexp2pattern sample_env"
          "aliases_table_elems sample_env" "rx_str sample_env" None False]
  by (simp add: script_conditions_def conjoin_def negate_if_def subfield_of_def sample_env_def)

text \<open>
  The claim as worded, for every combination of the arguments, fails where \<^verbatim>\<open>values\<close>
  comes without \<^verbatim>\<open>name\<close>: the call returns no predicate.
\<close>

theorem searchscript_values_only_counterexample:
  "searchscript (regexp2pattern sample_env) (aliases_table_elems sample_env) (rx_str sample_env)
     None None (Some (VStr ''nginx'')) False =
     Inl (TypeError ''.searchscript() needs a `name` arg when using a `values` arg'')"
  by (simp add: searchscript_def)

text \<open>
  Claim C7. Whatever the arguments \<^verbatim>\<open>output\<close> and \<^verbatim>\<open>values\<close>, a call of \<^verbatim>\<open>searchscript\<close>
  with a \<^verbatim>\<open>values\<close> argument and no \<^verbatim>\<open>name\<close> argument raises the \<^verbatim>\<open>TypeError\<close> with its
  descriptive message and returns no predicate. (The exception is the result of the branch
  that precedes the construction of any query.)
\<close>

theorem searchscript_values_without_name:
  "searchscript r2p aliases rxs None output (Some v) neg =
     Inl (TypeError ''.searchscript() needs a `name` arg when using a `values` arg'')"
  by (simp add: searchscript_def)

theorem searchscript_values_without_name_witness:
  "searchscript (regexp2pattern sample_env) (aliases_table_elems sample_env) (rx_str sample_env)
     None (Some (Str ''Apache'')) (Some (VItems [(''name'', Val (PStr ''server''))])) True =
     Inl (TypeError ''.searchscript() needs a `name` arg when using a `values` arg'')"
  using searchscript_values_without_name[of "regexp2pattern sample_env"
          "aliases_table_elems sample_env" "rx_str sample_env" "Some (Str ''Apache'')"
          "VItems [(''name'', Val (PStr ''server''))]" True]
  by simp


subsection \<open>\<^verbatim>\<open>searchasnum\<close>\<close>

lemma try_map_Inr_iff:
  "(\<exists>ys. try_map f xs = Inr ys) \<longleftrightarrow> (\<forall>x\<in>set xs. \<exists>y. f x = Inr y)"
  by (induction xs) (auto split: sum.splits)

text \<open>A comprehension ends with the exception of the first element that raises.\<close>

lemma try_map_first_error:
  "(\<forall>x\<in>set pre. \<exists>y. f x = Inr y) \<Longrightarrow> f v = Inl e \<Longrightarrow> try_map f (pre @ v # post) = Inl e"
  by (induction pre) (auto split: sum.splits)

lemma try_map_error_of_element:
  "try_map f xs = Inl e \<Longrightarrow> \<exists>x\<in>set xs. f x = Inl e"
  by (induction xs) (auto split: sum.splits)

text \<open>
  The exceptions of \<^verbatim>\<open>int\<close>: a \<^verbatim>\<open>ValueError\<close> for a string, a \<^verbatim>\<open>TypeError\<close> for a value
  that is neither a number nor a string.
\<close>

lemma py_int_error:
  "py_int v = Inl e \<Longrightarrow>
   (\<exists>s. v = PStr s \<and> int_of_str s = None \<and>
        e = ValueError ''invalid literal for int() with base 10'')
   \<or> ((\<forall>s. v \<noteq> PStr s) \<and> e = TypeError ''int() argument must be a string or a number'')"
  by (cases v) (auto split: option.splits)

text \<open>
  Claim C8, as amended. \<^verbatim>\<open>searchasnum\<close> coerces each value with \<^verbatim>\<open>int\<close> before it builds
  the predicate: a single value gives an exact numeric match, a non-string iterable (a
  list, a tuple, the keys of a dictionary) gives a match-any-of predicate over the coerced
  integers, in the order of the iteration; and a value that \<^verbatim>\<open>int\<close> does not accept makes
  the call raise the exception of \<^verbatim>\<open>int\<close> instead of returning a predicate: a
  \<^verbatim>\<open>ValueError\<close> for a string that is not an integer literal, a \<^verbatim>\<open>TypeError\<close> for a value
  that is neither a number nor a string, such as \<^verbatim>\<open>None\<close>. For an iterable the exception
  is that of the first element that \<^verbatim>\<open>int\<close> does not accept.
\<close>

theorem searchasnum_coerces:
  "searchasnum korder (PInt n) neg = Inr (negate_if neg (Q ''match'' ''infos.as_num'' (PInt n)))
   \<and> (int_of_str s = Some n \<longrightarrow>
        searchasnum korder (PStr s) neg =
          Inr (negate_if neg (Q ''match'' ''infos.as_num'' (PInt n))))
   \<and> (try_map py_int vals = Inr ns \<longrightarrow>
        searchasnum korder (PList vals) neg =
          Inr (negate_if neg (Q ''terms'' ''infos.as_num'' (PList (map PInt ns))))
        \<and> searchasnum korder (PTuple vals) neg =
          Inr (negate_if neg (Q ''terms'' ''infos.as_num'' (PList (map PInt ns)))))
   \<and> (try_map py_int (map PStr (korder m)) = Inr ns \<longrightarrow>
        searchasnum korder (PDict m) neg =
          Inr (negate_if neg (Q ''terms'' ''infos.as_num'' (PList (map PInt ns)))))
   \<and> (int_of_str s = None \<longrightarrow>
        searchasnum korder (PStr s) neg =
          Inl (ValueError ''invalid literal for int() with base 10''))
   \<and> searchasnum korder PNone neg =
        Inl (TypeError ''int() argument must be a string or a number'')
   \<and> ((\<forall>x\<in>set pre. \<exists>i. py_int x = Inr i) \<and> py_int v = Inl e \<longrightarrow>
        searchasnum korder (PList (pre @ v # post)) neg = Inl e
        \<and> searchasnum korder (PTuple (pre @ v # post)) neg = Inl e
        \<and> (case v of
             PStr t \<Rightarrow> e = ValueError ''invalid literal for int() with base 10''
           | _ \<Rightarrow> e = TypeError ''int() argument must be a string or a number''))
   \<and> (v \<in> set vals \<and> py_int v = Inl e \<longrightarrow>
        (\<exists>x\<in>set vals. \<exists>e'. py_int x = Inl e' \<and> searchasnum korder (PList vals) neg = Inl e'))
   \<and> (iter_items korder asnum = None \<longrightarrow>
        searchasnum korder asnum neg =
          (case py_int asnum of
             Inl e \<Rightarrow> Inl e
           | Inr i \<Rightarrow> Inr (negate_if neg (Q ''match'' ''infos.as_num'' (PInt i)))))
   \<and> (iter_items korder asnum = Some vals \<longrightarrow>
        searchasnum korder asnum neg =
          (case try_map py_int vals of
             Inl e \<Rightarrow> Inl e
           | Inr js \<Rightarrow> Inr (negate_if neg (Q ''terms'' ''infos.as_num'' (PList (map PInt js))))))
   \<and> (map PStr (korder m) = pre @ v # post \<and> (\<forall>x\<in>set pre. \<exists>i. py_int x = Inr i) \<and>
        py_int v = Inl e \<longrightarrow>
        searchasnum korder (PDict m) neg = Inl e)"
proof (intro conjI impI)
  assume "iter_items korder asnum = None"
  then show "searchasnum korder asnum neg =
          (case py_int asnum of
             Inl e \<Rightarrow> Inl e
           | Inr i \<Rightarrow> Inr (negate_if neg (Q ''match'' ''infos.as_num'' (PInt i))))"
    by (simp add: searchasnum_def)
next
  assume "iter_items korder asnum = Some vals"
  then show "searchasnum korder asnum neg =
          (case try_map py_int vals of
             Inl e \<Rightarrow> Inl e
           | Inr js \<Rightarrow> Inr (negate_if neg (Q ''terms'' ''infos.as_num'' (PList (map PInt js)))))"
    by (simp add: searchasnum_def)
next
  assume "map PStr (korder m) = pre @ v # post \<and> (\<forall>x\<in>set pre. \<exists>i. py_int x = Inr i) \<and>
        py_int v = Inl e"
  then have "try_map py_int (map PStr (korder m)) = Inl e"
    by (simp add: try_map_first_error)
  then show "searchasnum korder (PDict m) neg = Inl e"
    by (simp add: searchasnum_def)
next
  assume "try_map py_int vals = Inr ns"
  then show "searchasnum korder (PList vals) neg =
          Inr (negate_if neg (Q ''terms'' ''infos.as_num'' (PList (map PInt ns))))"
    and "searchasnum korder (PTuple vals) neg =
          Inr (negate_if neg (Q ''terms'' ''infos.as_num'' (PList (map PInt ns))))"
    by (simp_all add: searchasnum_def)
next
  assume "try_map py_int (map PStr (korder m)) = Inr ns"
  then show "searchasnum korder (PDict m) neg =
          Inr (negate_if neg (Q ''terms'' ''infos.as_num'' (PList (map PInt ns))))"
    by (simp add: searchasnum_def)
next
  assume a: "(\<forall>x\<in>set pre. \<exists>i. py_int x = Inr i) \<and> py_int v = Inl e"
  then have "try_map py_int (pre @ v # post) = Inl e"
    by (simp add: try_map_first_error)
  then show "searchasnum korder (PList (pre @ v # post)) neg = Inl e"
    and "searchasnum korder (PTuple (pre @ v # post)) neg = Inl e"
    by (simp_all add: searchasnum_def)
  from a py_int_error[of v e]
  show "case v of
          PStr t \<Rightarrow> e = ValueError ''invalid literal for int() with base 10''
        | _ \<Rightarrow> e = TypeError ''int() argument must be a string or a number''"
    by (cases v) auto
next
  assume a: "v \<in> set vals \<and> py_int v = Inl e"
  have "\<exists>e'. try_map py_int vals = Inl e'"
  proof (cases "try_map py_int vals")
    case (Inl e')
    then show ?thesis by simp
  next
    case (Inr ys)
    then have "\<forall>x\<in>set vals. \<exists>y. py_int x = Inr y"
      using try_map_Inr_iff[of py_int vals] by blast
    with a show ?thesis by auto
  qed
  then obtain e' where e': "try_map py_int vals = Inl e'" by blast
  from try_map_error_of_element[OF e'] obtain x where "x \<in> set vals" "py_int x = Inl e'"
    by blast
  with e' show "\<exists>x\<in>set vals. \<exists>e'. py_int x = Inl e' \<and> searchasnum korder (PList vals) neg = Inl e'"
    by (auto simp: searchasnum_def)
qed (simp_all add: searchasnum_def)

theorem searchasnum_coerces_witness:
  "searchasnum (key_order sample_env) (PInt 15169) False = Inr (Q ''match'' ''infos.as_num'' (PInt 15169))
   \<and> searchasnum (key_order sample_env) (PStr ''15169'') False = Inr (Q ''match'' ''infos.as_num'' (PInt 15169))
   \<and> searchasnum (key_order sample_env) (PStr '' 1_000'') False = Inr (Q ''match'' ''infos.as_num'' (PInt 1000))
   \<and> searchasnum (key_order sample_env) (PList [PInt 15169, PStr ''8075'']) True =
       Inr (QNot (Q ''terms'' ''infos.as_num'' (PList [PInt 15169, PInt 8075])))
   \<and> searchasnum (\<lambda>m. [''2'', ''10'']) (dict [(''2'', PInt 0), (''10'', PInt 1)]) False =
       Inr (Q ''terms'' ''infos.as_num'' (PList [PInt 2, PInt 10]))
   \<and> searchasnum (key_order sample_env) (PStr ''AS15169'') False =
       Inl (ValueError ''invalid literal for int() with base 10'')
   \<and> searchasnum (key_order sample_env) PNone False =
       Inl (TypeError ''int() argument must be a string or a number'')
   \<and> searchasnum (key_order sample_env) (PList [PInt 15169, PStr ''AS15169'', PNone]) False =
       Inl (ValueError ''invalid literal for int() with base 10'')
   \<and> searchasnum (key_order sample_env) (PList [PInt 15169, PNone, PStr ''AS15169'']) False =
       Inl (TypeError ''int() argument must be a string or a number'')"
proof -
  have a: "int_of_str ''15169'' = Some 15169"
    by (simp add: int_of_str_def strip_def is_space_def unsigned_of_str_def is_digit_def
          digits_value_def)
  have a': "int_of_str '' 1_000'' = Some 1000"
    by (simp add: int_of_str_def strip_def is_space_def unsigned_of_str_def is_digit_def
          digits_value_def)
  have a'': "int_of_str ''8075'' = Some 8075" "int_of_str ''2'' = Some 2"
    "int_of_str ''10'' = Some 10"
    by (simp_all add: int_of_str_def strip_def is_space_def unsigned_of_str_def is_digit_def
          digits_value_def)
  have b: "try_map py_int [PInt 15169, PStr ''8075''] = Inr [15169, 8075]"
    by (simp add: a'')
  have b': "try_map py_int (map PStr ((\<lambda>m. [''2'', ''10'']) (fmap_of_list [(''2'', PInt 0), (''10'', PInt 1)])))
              = Inr [2, 10]"
    by (simp add: a'')
  have c: "int_of_str ''AS15169'' = None"
    by (simp add: int_of_str_def strip_def is_space_def unsigned_of_str_def is_digit_def
          digits_value_def)
  have d: "(\<forall>x\<in>set [PInt 15169]. \<exists>i. py_int x = Inr i) \<and>
           py_int (PStr ''AS15169'') = Inl (ValueError ''invalid literal for int() with base 10'')"
    using c by simp
  have d': "(\<forall>x\<in>set [PInt 15169]. \<exists>i. py_int x = Inr i) \<and>
           py_int PNone = Inl (TypeError ''int() argument must be a string or a number'')"
    by simp
  show ?thesis
    using searchasnum_coerces[of "key_order sample_env" 15169 False "''15169''" "[PInt 15169, PStr ''8075'']"
            "[15169, 8075]" fmempty "[PInt 15169]" "PStr ''AS15169''"
            "ValueError ''invalid literal for int() with base 10''" "[PNone]"]
          searchasnum_coerces[of "key_order sample_env" 1000 False "'' 1_000''" "[PInt 15169, PStr ''8075'']"
            "[15169, 8075]" fmempty "[PInt 15169]" "PNone"
            "TypeError ''int() argument must be a string or a number''" "[PStr ''AS15169'']"]
          searchasnum_coerces[of "key_order sample_env" 15169 True "''AS15169''" "[PInt 15169, PStr ''8075'']"
            "[15169, 8075]" fmempty "[PInt 15169]" "PStr ''AS15169''"
            "ValueError ''invalid literal for int() with base 10''" "[PNone]"]
          searchasnum_coerces[of "key_order sample_env" 15169 False "''AS15169''" "[PInt 15169, PStr ''8075'']"
            "[15169, 8075]" fmempty "[PInt 15169]" "PStr ''AS15169''"
            "ValueError ''invalid literal for int() with base 10''" "[PNone]"]
          searchasnum_coerces[of "\<lambda>m. [''2'', ''10'']" 15169 False "''AS15169''" "[]"
            "[2, 10]" "fmap_of_list [(''2'', PInt 0), (''10'', PInt 1)]" "[PInt 15169]"
            "PStr ''AS15169''"
            "ValueError ''invalid literal for int() with base 10''" "[PNone]"]
          a a' b b' c d d'
    by (simp add: negate_if_def dict_def)
qed

text \<open>
  The claim as worded has a non-numeric value fail with a type error; for a string that
  is not a number the exception is a \<^verbatim>\<open>ValueError\<close>.
\<close>

theorem searchasnum_value_error_counterexample:
  "searchasnum (key_order sample_env) (PStr ''AS15169'') False =
     Inl (ValueError ''invalid literal for int() with base 10'')
   \<and> searchasnum (key_order sample_env) (PStr ''AS15169'') False \<noteq>
     Inl (TypeError ''int() argument must be a string or a number'')"
  by (simp add: searchasnum_def int_of_str_def strip_def is_space_def unsigned_of_str_def
        is_digit_def)


subsection \<open>\<^verbatim>\<open>searchcountry\<close>\<close>

text \<open>
  Claim C9, as amended. \<^verbatim>\<open>searchcountry\<close> matches the field \<^verbatim>\<open>infos.country_code\<close>
  against what \<^verbatim>\<open>utils.country_unalias\<close> makes of the caller's argument: when that is a
  list, a match-any-of predicate over exactly the codes of that list, otherwise an exact
  match on that value. (For an argument that \<^verbatim>\<open>country_unalias\<close> returns unchanged, this is
  the caller's argument.)
\<close>

theorem searchcountry_unaliased:
  "(country_unalias country = PList cs \<longrightarrow>
      searchcountry country_unalias country neg =
        negate_if neg (Q ''terms'' ''infos.country_code'' (PList cs)))
   \<and> ((\<forall>cs. country_unalias country \<noteq> PList cs) \<longrightarrow>
      searchcountry country_unalias country neg =
        negate_if neg (Q ''match'' ''infos.country_code'' (country_unalias country)))"
  by (cases "country_unalias country") (simp_all add: searchcountry_def)

theorem searchcountry_unaliased_witness:
  "searchcountry (\<lambda>c. c) (PList [PStr ''FR'', PStr ''DE'']) False =
     Q ''terms'' ''infos.country_code'' (PList [PStr ''FR'', PStr ''DE''])
   \<and> searchcountry (\<lambda>c. c) (PStr ''FR'') True =
     QNot (Q ''match'' ''infos.country_code'' (PStr ''FR''))"
  using searchcountry_unaliased[of "\<lambda>c. c" "PList [PStr ''FR'', PStr ''DE'']"
          "[PStr ''FR'', PStr ''DE'']" False]
        searchcountry_unaliased[of "\<lambda>c. c" "PStr ''FR''" "[]" True]
  by (simp add: negate_if_def)

text \<open>
  The claim as worded matches the caller's argument itself; with a helper that resolves
  the alias \<^verbatim>\<open>UK\<close> to \<^verbatim>\<open>GB\<close>, the predicate for the argument \<^verbatim>\<open>UK\<close> matches \<^verbatim>\<open>GB\<close>.
\<close>

theorem searchcountry_alias_counterexample:
  "searchcountry (\<lambda>c. if c = PStr ''UK'' then PStr ''GB'' else c) (PStr ''UK'') False =
     Q ''match'' ''infos.country_code'' (PStr ''GB'')
   \<and> searchcountry (\<lambda>c. if c = PStr ''UK'' then PStr ''GB'' else c) (PStr ''UK'') False \<noteq>
     Q ''match'' ''infos.country_code'' (PStr ''UK'')"
  by (simp add: searchcountry_def negate_if_def)

section \<open>Properties of the Record Store\<close>

lemma flip_coordinates_no_infos:
  "fmlookup h ''infos'' = None \<Longrightarrow> flip_coordinates (PDict h) = Inr (PDict h)"
  by (simp add: flip_coordinates_def and_then_def dict_def)

lemma flip_coordinates_no_coordinates:
  "fmlookup h ''infos'' = Some (PDict i) \<Longrightarrow> fmlookup i ''coordinates'' = None \<Longrightarrow>
   flip_coordinates (PDict h) = Inr (PDict h)"
  by (simp add: flip_coordinates_def and_then_def)

lemma flip_coordinates_reversed:
  "fmlookup h ''infos'' = Some (PDict i) \<Longrightarrow> fmlookup i ''coordinates'' = Some c \<Longrightarrow>
   py_reversed c = Inr c' \<Longrightarrow>
   flip_coordinates (PDict h) =
     Inr (PDict (fmupd ''infos'' (PDict (fmupd ''coordinates'' c' i)) h))"
  by (simp add: flip_coordinates_def and_then_def)

lemma db_scan_append:
  "db_scan eng (st @ [doc]) q =
     db_scan eng st q @ (if matches eng (PDict q) (snd doc) then [scan_record eng q doc] else [])"
  by (simp add: db_scan_def)

lemma gen_map_snoc:
  "gen_map f xs = (ys, None) \<Longrightarrow> f x = Inr y \<Longrightarrow> gen_map f (xs @ [x]) = (ys @ [y], None)"
  by (induction xs arbitrary: ys) (auto split: sum.splits prod.splits)

lemma convert_datetimes_keeps:
  "distinct fs \<Longrightarrow> k \<notin> set fs \<Longrightarrow>
   (\<forall>f\<in>set fs. \<forall>v. fmlookup m f = Some v \<longrightarrow> (\<exists>v'. all2datetime ev v = Inr v')) \<Longrightarrow>
   \<exists>m'. convert_datetimes ev fs (PDict m) = Inr (PDict m') \<and> fmlookup m' k = fmlookup m k"
proof (induction fs arbitrary: m)
  case Nil
  then show ?case by simp
next
  case (Cons f fs)
  show ?case
  proof (cases "fmlookup m f")
    case None
    with Cons.IH[of m] Cons.prems show ?thesis
      by (simp add: and_then_def)
  next
    case (Some v)
    with Cons.prems obtain v' where v': "all2datetime ev v = Inr v'"
      by auto
    have "\<forall>g\<in>set fs. \<forall>w. fmlookup (fmupd f v' m) g = Some w \<longrightarrow>
            (\<exists>w'. all2datetime ev w = Inr w')"
      using Cons.prems by auto
    with Cons.IH[of "fmupd f v' m"] Cons.prems
    obtain m' where "convert_datetimes ev fs (PDict (fmupd f v' m)) = Inr (PDict m')"
      and "fmlookup m' k = fmlookup (fmupd f v' m) k"
      by auto
    with Some v' Cons.prems show ?thesis
      by (auto simp: and_then_def)
  qed
qed

lemma fmupd_same: "fmlookup m k = Some v \<Longrightarrow> fmupd k v m = m"
  by (rule fmap_ext) auto

text \<open>
  Claim C1. For every host record whose \<^verbatim>\<open>infos.coordinates\<close> is a pair (latitude,
  longitude), \<^verbatim>\<open>store_host\<close> followed by \<^verbatim>\<open>get\<close> gives the same pair: the order is reversed
  once on write (the document in the store holds longitude first) and once more on read.

  The statement is for a retrieval that the engine makes reach the new document, after
  the documents stored before, whose retrieval raised nothing; the names in
  \<^verbatim>\<open>datetime_fields\<close> are distinct, differ from \<^verbatim>\<open>infos\<close> and \<^verbatim>\<open>_id\<close>, and
  \<^verbatim>\<open>all2datetime\<close> accepts what the host holds under them.
\<close>

theorem store_get_coordinates_roundtrip:
  assumes host: "coordinates_of host = Some (PList [lat, lon])"
    and stored: "store_host eng st host = Inr st'"
    and found: "matches eng (PDict (get_query ev spec None)) (snd (last st'))"
    and before: "get eng ev st spec None = (ys, None)"
    and dt: "distinct (datetime_fields ev)" "''infos'' \<notin> set (datetime_fields ev)"
      "''_id'' \<notin> set (datetime_fields ev)"
    and conv: "\<forall>f\<in>set (datetime_fields ev). \<forall>v. py_getitem host f = Inr v \<longrightarrow>
                 (\<exists>v'. all2datetime ev v = Inr v')"
  shows "coordinates_of (snd (last st')) = Some (PList [lon, lat]) \<and>
         (\<exists>host'. get eng ev st' spec None = (ys @ [host'], None) \<and>
                   coordinates_of host' = Some (PList [lat, lon]))"
proof -
  from host obtain h i where h: "host = PDict h" "fmlookup h ''infos'' = Some (PDict i)"
    "fmlookup i ''coordinates'' = Some (PList [lat, lon])"
    by (auto simp: coordinates_of_def split: pyval.splits option.splits)
  define i' where "i' = fmupd ''coordinates'' (PList [lon, lat]) i"
  define body where "body = fmupd ''infos'' (PDict i') h"
  define ident where "ident = assign_id eng st"
  have flip: "flip_coordinates host = Inr (PDict body)"
    using flip_coordinates_reversed[OF h(2,3), of "PList [lon, lat]"] h(1)
    by (simp add: body_def i'_def)
  with stored have st': "st' = st @ [(ident, PDict body)]"
    by (simp add: store_host_def and_then_def db_index_def ident_def)
  have inner: "coordinates_of (snd (last st')) = Some (PList [lon, lat])"
    by (simp add: st' coordinates_of_def body_def i'_def)
  let ?q = "get_query ev spec None"
  have nosrc: "fmlookup ?q ''_source'' = None"
    by (simp add: get_query_def)
  have scan: "db_scan eng st' ?q = db_scan eng st ?q @ [scan_record eng ?q (ident, PDict body)]"
    using found by (simp add: st' db_scan_append)
  have scanned: "scan_record eng ?q (ident, PDict body) =
               dict [(''_id'', ident), (''_source'', PDict body)]"
    by (simp add: scan_record_def nosrc)
  define h2 where "h2 = fmupd ''infos'' (PDict i) (fmupd ''_id'' ident body)"
  have restored: "fmupd ''coordinates'' (PList [lat, lon]) i = i"
    using h(3) by (rule fmupd_same)
  have flip2: "flip_coordinates (PDict (fmupd ''_id'' ident body)) = Inr (PDict h2)"
    using flip_coordinates_reversed[of "fmupd ''_id'' ident body" i' "PList [lon, lat]"
            "PList [lat, lon]"]
    by (simp add: body_def i'_def h2_def restored)
  have "\<forall>f\<in>set (datetime_fields ev). \<forall>v. fmlookup h2 f = Some v \<longrightarrow>
          (\<exists>v'. all2datetime ev v = Inr v')"
  proof (intro ballI allI impI)
    fix f v assume f: "f \<in> set (datetime_fields ev)" and v: "fmlookup h2 f = Some v"
    from f dt have "f \<noteq> ''infos''" "f \<noteq> ''_id''" by auto
    with v have "fmlookup h f = Some v" by (simp add: h2_def body_def)
    with conv f h(1) show "\<exists>v'. all2datetime ev v = Inr v'" by simp
  qed
  from convert_datetimes_keeps[OF dt(1) dt(2) this]
  obtain h3 where h3: "convert_datetimes ev (datetime_fields ev) (PDict h2) = Inr (PDict h3)"
    "fmlookup h3 ''infos'' = fmlookup h2 ''infos''"
    by blast
  have gh: "get_host ev (scan_record eng ?q (ident, PDict body)) = Inr (PDict h3)"
    by (simp add: scanned get_host_def and_then_def dict_def dict_with_id_def flip2 h3)
  have "get eng ev st' spec None = (ys @ [PDict h3], None)"
    using gen_map_snoc[OF before[unfolded get_def] gh] by (simp add: get_def scan)
  moreover have "coordinates_of (PDict h3) = Some (PList [lat, lon])"
    by (simp add: coordinates_of_def h3(2) h2_def h(3))
  ultimately show ?thesis using inner by blast
qed

theorem store_get_coordinates_roundtrip_witness:
  "coordinates_of sample_host = Some (PList [PFloat 48.85, PFloat 2.35])
   \<and> store_host sample_engine [] sample_host =
       Inr [(PInt 0,
             dict [(''addr'', PStr ''1.2.3.4''),
                   (''infos'',
                    dict [(''country_code'', PStr ''FR''),
                          (''coordinates'', PList [PFloat 2.35, PFloat 48.85])])])]
   \<and> (\<exists>host'.
         get sample_engine sample_env
           [(PInt 0,
             dict [(''addr'', PStr ''1.2.3.4''),
                   (''infos'',
                    dict [(''country_code'', PStr ''FR''),
                          (''coordinates'', PList [PFloat 2.35, PFloat 48.85])])])]
           (searchcountry (\<lambda>c. c) (PStr ''FR'') False) None = ([host'], None)
         \<and> coordinates_of host' = Some (PList [PFloat 48.85, PFloat 2.35]))"
proof -
  let ?st' = "[(PInt 0,
             dict [(''addr'', PStr ''1.2.3.4''),
                   (''infos'',
                    dict [(''country_code'', PStr ''FR''),
                          (''coordinates'', PList [PFloat 2.35, PFloat 48.85])])])]"
  let ?spec = "searchcountry (\<lambda>c. c) (PStr ''FR'') False"
  have a: "coordinates_of sample_host = Some (PList [PFloat 48.85, PFloat 2.35])"
    by (simp add: coordinates_of_def sample_host_def dict_def)
  have b: "store_host sample_engine [] sample_host = Inr ?st'"
    by (simp add: store_host_def flip_coordinates_def and_then_def db_index_def sample_host_def
          sample_engine_def dict_def fmupd_reorder_neq)
  have c: "matches sample_engine (PDict (get_query sample_env ?spec None)) (snd (last ?st'))"
    by (simp add: sample_engine_def)
  have d: "get sample_engine sample_env [] ?spec None = ([], None)"
    by (simp add: get_def db_scan_def)
  have e: "distinct (datetime_fields sample_env)" "''infos'' \<notin> set (datetime_fields sample_env)"
    "''_id'' \<notin> set (datetime_fields sample_env)"
    by (simp_all add: sample_env_def)
  have f: "\<forall>f\<in>set (datetime_fields sample_env). \<forall>v. py_getitem sample_host f = Inr v \<longrightarrow>
             (\<exists>v'. all2datetime sample_env v = Inr v')"
    by (simp add: sample_env_def)
  from store_get_coordinates_roundtrip[OF a b c d e f] a b show ?thesis
    by simp
qed

text \<open>
  Claim C10. \<^verbatim>\<open>store_host\<close> changes nothing of the host document but the field
  \<^verbatim>\<open>infos.coordinates\<close>, whose order it reverses, before it indexes the document as a new
  record: every other field of the indexed body is that of the input host, and a host
  without \<^verbatim>\<open>infos.coordinates\<close> is indexed unchanged.
\<close>

theorem store_host_frame:
  "(fmlookup h ''infos'' = None \<or>
    (fmlookup h ''infos'' = Some (PDict i) \<and> fmlookup i ''coordinates'' = None) \<longrightarrow>
      store_host eng st (PDict h) = Inr (st @ [(assign_id eng st, PDict h)]))
   \<and> (fmlookup h ''infos'' = Some (PDict i) \<and> fmlookup i ''coordinates'' = Some c \<and>
      py_reversed c = Inr c' \<longrightarrow>
      (\<exists>body i'. store_host eng st (PDict h) = Inr (st @ [(assign_id eng st, PDict body)]) \<and>
         fmlookup body ''infos'' = Some (PDict i') \<and>
         fmlookup i' ''coordinates'' = Some c' \<and>
         (\<forall>k. k \<noteq> ''infos'' \<longrightarrow> fmlookup body k = fmlookup h k) \<and>
         (\<forall>k. k \<noteq> ''coordinates'' \<longrightarrow> fmlookup i' k = fmlookup i k)))"
proof (intro conjI impI)
  assume "fmlookup h ''infos'' = None \<or>
    (fmlookup h ''infos'' = Some (PDict i) \<and> fmlookup i ''coordinates'' = None)"
  then have "flip_coordinates (PDict h) = Inr (PDict h)"
    using flip_coordinates_no_infos[of h] flip_coordinates_no_coordinates[of h i] by blast
  then show "store_host eng st (PDict h) = Inr (st @ [(assign_id eng st, PDict h)])"
    by (simp add: store_host_def and_then_def db_index_def)
next
  assume a: "fmlookup h ''infos'' = Some (PDict i) \<and> fmlookup i ''coordinates'' = Some c \<and>
      py_reversed c = Inr c'"
  then have "flip_coordinates (PDict h) =
     Inr (PDict (fmupd ''infos'' (PDict (fmupd ''coordinates'' c' i)) h))"
    using flip_coordinates_reversed[of h i c c'] by blast
  then have "store_host eng st (PDict h) =
      Inr (st @ [(assign_id eng st,
                  PDict (fmupd ''infos'' (PDict (fmupd ''coordinates'' c' i)) h))])"
    by (simp add: store_host_def and_then_def db_index_def)
  then show "\<exists>body i'.
         store_host eng st (PDict h) = Inr (st @ [(assign_id eng st, PDict body)]) \<and>
         fmlookup body ''infos'' = Some (PDict i') \<and>
         fmlookup i' ''coordinates'' = Some c' \<and>
         (\<forall>k. k \<noteq> ''infos'' \<longrightarrow> fmlookup body k = fmlookup h k) \<and>
         (\<forall>k. k \<noteq> ''coordinates'' \<longrightarrow> fmlookup i' k = fmlookup i k)"
    by (intro exI[of _ "fmupd ''infos'' (PDict (fmupd ''coordinates'' c' i)) h"]
              exI[of _ "fmupd ''coordinates'' c' i"]) simp
qed

theorem store_host_frame_witness:
  "store_host sample_engine []
     (PDict (fmap_of_list [(''addr'', PStr ''1.2.3.4''),
                           (''infos'', PDict (fmap_of_list [(''country_code'', PStr ''FR'')]))])) =
     Inr [(PInt 0,
           PDict (fmap_of_list [(''addr'', PStr ''1.2.3.4''),
                                (''infos'', PDict (fmap_of_list [(''country_code'', PStr ''FR'')]))]))]
   \<and> (\<exists>body i'.
        store_host sample_engine []
          (PDict (fmap_of_list
             [(''addr'', PStr ''1.2.3.4''),
              (''infos'',
               PDict (fmap_of_list
                 [(''country_code'', PStr ''FR''),
                  (''coordinates'', PList [PFloat 48.85, PFloat 2.35])]))])) =
          Inr [(PInt 0, PDict body)]
        \<and> fmlookup body ''infos'' = Some (PDict i')
        \<and> fmlookup i' ''coordinates'' = Some (PList [PFloat 2.35, PFloat 48.85])
        \<and> fmlookup body ''addr'' = Some (PStr ''1.2.3.4'')
        \<and> fmlookup i' ''country_code'' = Some (PStr ''FR''))"
proof -
  let ?i0 = "fmap_of_list [(''country_code'', PStr ''FR'')]"
  let ?h0 = "fmap_of_list [(''addr'', PStr ''1.2.3.4''), (''infos'', PDict ?i0)]"
  let ?i1 = "fmap_of_list [(''country_code'', PStr ''FR''),
                           (''coordinates'', PList [PFloat 48.85, PFloat 2.35])]"
  let ?h1 = "fmap_of_list [(''addr'', PStr ''1.2.3.4''), (''infos'', PDict ?i1)]"
  have a: "fmlookup ?h0 ''infos'' = Some (PDict ?i0) \<and> fmlookup ?i0 ''coordinates'' = None"
    by simp
  have b: "fmlookup ?h1 ''infos'' = Some (PDict ?i1) \<and>
           fmlookup ?i1 ''coordinates'' = Some (PList [PFloat 48.85, PFloat 2.35]) \<and>
           py_reversed (PList [PFloat 48.85, PFloat 2.35]) = Inr (PList [PFloat 2.35, PFloat 48.85])"
    by simp
  from store_host_frame[of ?h0 ?i0 sample_engine "[]" "PNone" "PNone"] a
  have first: "store_host sample_engine [] (PDict ?h0) = Inr [(PInt 0, PDict ?h0)]"
    by (simp add: sample_engine_def)
  from store_host_frame[of ?h1 ?i1 sample_engine "[]" "PList [PFloat 48.85, PFloat 2.35]"
         "PList [PFloat 2.35, PFloat 48.85]"] b
  obtain body i' where
    "store_host sample_engine [] (PDict ?h1) = Inr ([] @ [(assign_id sample_engine [], PDict body)])"
    "fmlookup body ''infos'' = Some (PDict i')"
    "fmlookup i' ''coordinates'' = Some (PList [PFloat 2.35, PFloat 48.85])"
    "\<forall>k. k \<noteq> ''infos'' \<longrightarrow> fmlookup body k = fmlookup ?h1 k"
    "\<forall>k. k \<noteq> ''coordinates'' \<longrightarrow> fmlookup i' k = fmlookup ?i1 k"
    by blast
  then have "store_host sample_engine [] (PDict ?h1) = Inr [(PInt 0, PDict body)]
        \<and> fmlookup body ''infos'' = Some (PDict i')
        \<and> fmlookup i' ''coordinates'' = Some (PList [PFloat 2.35, PFloat 48.85])
        \<and> fmlookup body ''addr'' = Some (PStr ''1.2.3.4'')
        \<and> fmlookup i' ''country_code'' = Some (PStr ''FR'')"
    by (simp add: sample_engine_def)
  with first show ?thesis by blast
qed


section \<open>Properties of the Schema Builder\<close>

lemma split_on_not_Nil: "split_on c s \<noteq> []"
  by (induction s) (auto split: list.splits)

lemma join_split_on: "join_dots (split_on CHR ''.'' s) = s"
proof (induction s)
  case Nil
  show ?case by simp
next
  case (Cons x xs)
  obtain w ws where ws: "split_on CHR ''.'' xs = w # ws"
    using split_on_not_Nil[of "CHR ''.''" xs] by (cases "split_on CHR ''.'' xs") auto
  with Cons show ?case by (cases ws) auto
qed

lemma split_on_absent: "c \<notin> set s \<Longrightarrow> split_on c s = [s]"
  by (induction s) auto

lemma split_on_present: "c \<in> set s \<Longrightarrow> \<exists>w v ws. split_on c s = w # v # ws"
proof (induction s)
  case Nil
  then show ?case by simp
next
  case (Cons x xs)
  obtain w ws where ws: "split_on c xs = w # ws"
    using split_on_not_Nil[of c xs] by (cases "split_on c xs") auto
  show ?case
  proof (cases "x = c")
    case True
    with ws show ?thesis by simp
  next
    case False
    with Cons.prems have "c \<in> set xs" by simp
    with Cons.IH obtain w' v' ws' where "split_on c xs = w' # v' # ws'" by blast
    with False show ?thesis by simp
  qed
qed

text \<open>The two ways in which the source takes the last segment of a path agree.\<close>

lemma rsplit_last_split_on: "rsplit_last c s = last (split_on c s)"
proof (induction s)
  case Nil
  show ?case by (simp add: rsplit_last_def)
next
  case (Cons x xs)
  show ?case
  proof (cases "c \<in> set xs")
    case True
    then obtain w v ws where ws: "split_on c xs = w # v # ws"
      using split_on_present by blast
    have "takeWhile (\<lambda>y. y \<noteq> c) (rev xs @ [x]) = takeWhile (\<lambda>y. y \<noteq> c) (rev xs)"
      using True by (auto simp: takeWhile_append)
    with Cons ws show ?thesis by (simp add: rsplit_last_def)
  next
    case False
    then have "\<forall>y\<in>set (rev xs). y \<noteq> c" by auto
    with False show ?thesis
      by (cases "x = c") (auto simp: rsplit_last_def split_on_absent takeWhile_append)
  qed
qed

lemma rel_path_Nil: "rel_path ck [] lst = join_key ck lst"
  by (simp add: rel_path_def)

lemma join_dots_Cons_snoc: "join_dots (seg # segs @ [lst]) = seg @ ''.'' @ join_dots (segs @ [lst])"
  by (cases segs) simp_all

lemma rel_path_Cons: "rel_path ck (seg # segs) lst = rel_path (Some (join_key ck seg)) segs lst"
  by (cases ck) (simp_all add: rel_path_def join_key_def join_dots_Cons_snoc)

lemma rel_path_Some: "rel_path (Some k) segs lst = k @ ''.'' @ rel_path None segs lst"
  by (simp add: rel_path_def join_key_def)

lemma place_first_nested:
  "place v lst ck segs cur =
     (case first_nested cur ck segs of
        None \<Rightarrow> fmupd (rel_path ck segs lst) v cur
      | Some (k, rest) \<Rightarrow> with_properties cur k (place v lst None rest (properties_at cur k)))"
  by (induction segs arbitrary: ck)
     (simp_all add: rel_path_Nil rel_path_Cons cong: option.case_cong)

lemma first_nested_Some:
  "first_nested cur ck segs = Some (k, rest) \<Longrightarrow>
   length rest < length segs \<and> nested_at cur k \<and>
   rel_path ck segs lst = k @ ''.'' @ rel_path None rest lst"
proof (induction segs arbitrary: ck)
  case Nil
  then show ?case by simp
next
  case (Cons seg segs)
  show ?case
  proof (cases "nested_at cur (join_key ck seg)")
    case True
    with Cons.prems show ?thesis
      by (auto simp: rel_path_Cons rel_path_Some)
  next
    case False
    with Cons.prems have "first_nested cur (Some (join_key ck seg)) segs = Some (k, rest)"
      by simp
    from Cons.IH[OF this] show ?thesis
      by (simp add: rel_path_Cons)
  qed
qed

lemma first_nested_cong:
  "(\<And>k. dotted_prefix k (rel_path ck segs lst) \<Longrightarrow> nested_at cur' k = nested_at cur k) \<Longrightarrow>
   first_nested cur' ck segs = first_nested cur ck segs"
proof (induction segs arbitrary: ck)
  case Nil
  show ?case by simp
next
  case (Cons seg segs)
  have "dotted_prefix (join_key ck seg) (rel_path ck (seg # segs) lst)"
    by (simp add: rel_path_Cons rel_path_Some dotted_prefix_def)
  then have here: "nested_at cur' (join_key ck seg) = nested_at cur (join_key ck seg)"
    by (rule Cons.prems)
  have "first_nested cur' (Some (join_key ck seg)) segs =
        first_nested cur (Some (join_key ck seg)) segs"
    by (rule Cons.IH) (simp add: Cons.prems rel_path_Cons)
  with here show ?case by simp
qed

lemma nested_at_fmupd:
  "k' \<noteq> k \<Longrightarrow> nested_at (fmupd k v cur) k' = nested_at cur k'"
  by (simp add: nested_at_def)

lemma nested_at_with_properties:
  "nested_at cur k \<Longrightarrow> nested_at (with_properties cur k p) k' = nested_at cur k'"
  by (auto simp: nested_at_def with_properties_def split: option.splits pyval.splits)

lemma properties_at_with_properties:
  "properties_at (with_properties cur k p) k' = (if k' = k then p else properties_at cur k')"
  by (simp add: properties_at_def with_properties_def)

lemma properties_at_fmupd:
  "k' \<noteq> k \<Longrightarrow> properties_at (fmupd k v cur) k' = properties_at cur k'"
  by (simp add: properties_at_def)

lemma with_properties_twice:
  "with_properties (with_properties cur k p) k q = with_properties cur k q"
  by (simp add: with_properties_def)

lemma with_properties_fmupd:
  "k' \<noteq> k \<Longrightarrow> with_properties (fmupd k v cur) k' p = fmupd k v (with_properties cur k' p)"
  by (simp add: with_properties_def fmupd_reorder_neq)

lemma with_properties_swap:
  "k' \<noteq> k \<Longrightarrow>
   with_properties (with_properties cur k p) k' q = with_properties (with_properties cur k' q) k p"
  by (simp add: with_properties_def fmupd_reorder_neq)

lemma dotted_prefix_below:
  "dotted_prefix (k @ CHR ''.'' # a) (k @ CHR ''.'' # b) = dotted_prefix a b"
  by (simp add: dotted_prefix_def)

lemma dotted_prefix_irrefl: "\<not> dotted_prefix a a"
  by (simp add: dotted_prefix_def)

text \<open>
  Two fields neither of which is the other or an ancestor of the other can be placed in
  either order.
\<close>

lemma place_commute:
  assumes "rel_path None sa la \<noteq> rel_path None sb lb"
    and "\<not> dotted_prefix (rel_path None sa la) (rel_path None sb lb)"
    and "\<not> dotted_prefix (rel_path None sb lb) (rel_path None sa la)"
  shows "place va la None sa (place vb lb None sb cur) =
         place vb lb None sb (place va la None sa cur)"
  using assms
proof (induction "length sa" arbitrary: sa sb cur rule: less_induct)
  case less
  let ?ra = "rel_path None sa la" and ?rb = "rel_path None sb lb"
  show ?case
  proof (cases "first_nested cur None sa")
    case None
    note a = None
    have pa: "place va la None sa cur = fmupd ?ra va cur"
      by (simp add: place_first_nested a)
    have fb: "first_nested (fmupd ?ra va cur) None sb = first_nested cur None sb"
    proof (rule first_nested_cong[where lst = lb])
      fix k assume "dotted_prefix k ?rb"
      with less.prems(2) have "k \<noteq> ?ra" by auto
      then show "nested_at (fmupd ?ra va cur) k = nested_at cur k"
        by (rule nested_at_fmupd)
    qed
    show ?thesis
    proof (cases "first_nested cur None sb")
      case None
      have pb: "place vb lb None sb cur = fmupd ?rb vb cur"
        by (simp add: place_first_nested None)
      have fa: "first_nested (fmupd ?rb vb cur) None sa = first_nested cur None sa"
      proof (rule first_nested_cong[where lst = la])
        fix k assume "dotted_prefix k ?ra"
        with less.prems(3) have "k \<noteq> ?rb" by auto
        then show "nested_at (fmupd ?rb vb cur) k = nested_at cur k"
          by (rule nested_at_fmupd)
      qed
      have "place va la None sa (fmupd ?rb vb cur) = fmupd ?ra va (fmupd ?rb vb cur)"
        by (simp add: place_first_nested fa a)
      moreover have "place vb lb None sb (fmupd ?ra va cur) = fmupd ?rb vb (fmupd ?ra va cur)"
        by (simp add: place_first_nested fb None)
      ultimately show ?thesis
        using less.prems(1) by (simp add: pa pb fmupd_reorder_neq)
    next
      case (Some kr)
      obtain kb rb where kr: "kr = (kb, rb)" by (cases kr)
      from first_nested_Some[OF Some[unfolded kr], of lb]
      have nb: "nested_at cur kb" and eb: "?rb = kb @ ''.'' @ rel_path None rb lb" by simp_all
      have "dotted_prefix kb ?rb" by (simp add: eb dotted_prefix_def)
      with less.prems(2) have ne: "kb \<noteq> ?ra" by auto
      have pb: "place vb lb None sb cur =
                  with_properties cur kb (place vb lb None rb (properties_at cur kb))"
        by (simp add: place_first_nested Some kr)
      have fa: "first_nested (place vb lb None sb cur) None sa = first_nested cur None sa"
        by (rule first_nested_cong[where lst = la])
           (simp add: pb nested_at_with_properties nb)
      have "place va la None sa (place vb lb None sb cur) =
              fmupd ?ra va (place vb lb None sb cur)"
        by (simp add: place_first_nested[of va la None sa] fa a)
      moreover have "place vb lb None sb (fmupd ?ra va cur) =
              with_properties (fmupd ?ra va cur) kb
                (place vb lb None rb (properties_at (fmupd ?ra va cur) kb))"
        by (simp add: place_first_nested[of vb lb None sb] fb Some kr)
      ultimately show ?thesis
        using ne by (simp add: pa pb properties_at_fmupd with_properties_fmupd)
    qed
  next
    case (Some kr)
    obtain ka ra where kr: "kr = (ka, ra)" by (cases kr)
    note a = Some[unfolded kr]
    from first_nested_Some[OF a, of la]
    have la: "length ra < length sa" and na: "nested_at cur ka"
      and ea: "?ra = ka @ ''.'' @ rel_path None ra la" by simp_all
    have "dotted_prefix ka ?ra" by (simp add: ea dotted_prefix_def)
    with less.prems(3) have ne: "ka \<noteq> ?rb" by auto
    have pa: "place va la None sa cur =
                with_properties cur ka (place va la None ra (properties_at cur ka))"
      by (simp add: place_first_nested a)
    have fb: "first_nested (place va la None sa cur) None sb = first_nested cur None sb"
      by (rule first_nested_cong[where lst = lb])
         (simp add: pa nested_at_with_properties na)
    show ?thesis
    proof (cases "first_nested cur None sb")
      case None
      have pb: "place vb lb None sb cur = fmupd ?rb vb cur"
        by (simp add: place_first_nested None)
      have fa: "first_nested (fmupd ?rb vb cur) None sa = first_nested cur None sa"
      proof (rule first_nested_cong[where lst = la])
        fix k assume "dotted_prefix k ?ra"
        with less.prems(3) have "k \<noteq> ?rb" by auto
        then show "nested_at (fmupd ?rb vb cur) k = nested_at cur k"
          by (rule nested_at_fmupd)
      qed
      have "place va la None sa (fmupd ?rb vb cur) =
              with_properties (fmupd ?rb vb cur) ka
                (place va la None ra (properties_at (fmupd ?rb vb cur) ka))"
        by (simp add: place_first_nested[of va la None sa] fa a)
      moreover have "place vb lb None sb (place va la None sa cur) =
              fmupd ?rb vb (place va la None sa cur)"
        by (simp add: place_first_nested[of vb lb None sb] fb None)
      ultimately show ?thesis
        using ne by (simp add: pa pb properties_at_fmupd with_properties_fmupd)
    next
      case (Some kr')
      obtain kb rb where kr': "kr' = (kb, rb)" by (cases kr')
      note b = Some[unfolded kr']
      from first_nested_Some[OF b, of lb]
      have nb: "nested_at cur kb" and eb: "?rb = kb @ ''.'' @ rel_path None rb lb" by simp_all
      have pb: "place vb lb None sb cur =
                  with_properties cur kb (place vb lb None rb (properties_at cur kb))"
        by (simp add: place_first_nested b)
      have fa: "first_nested (place vb lb None sb cur) None sa = first_nested cur None sa"
        by (rule first_nested_cong[where lst = la])
           (simp add: pb nested_at_with_properties nb)
      have ab: "place va la None sa (place vb lb None sb cur) =
              with_properties (place vb lb None sb cur) ka
                (place va la None ra (properties_at (place vb lb None sb cur) ka))"
        by (simp add: place_first_nested[of va la None sa] fa a)
      have ba: "place vb lb None sb (place va la None sa cur) =
              with_properties (place va la None sa cur) kb
                (place vb lb None rb (properties_at (place va la None sa cur) kb))"
        by (simp add: place_first_nested[of vb lb None sb] fb b)
      show ?thesis
      proof (cases "ka = kb")
        case False
        then show ?thesis
          by (simp only: ab ba)
             (simp add: pa pb properties_at_with_properties with_properties_swap)
      next
        case True
        have "rel_path None ra la \<noteq> rel_path None rb lb"
          using less.prems(1) ea eb True by auto
        moreover have "\<not> dotted_prefix (rel_path None ra la) (rel_path None rb lb)"
          using less.prems(2) ea eb True by (simp add: dotted_prefix_below)
        moreover have "\<not> dotted_prefix (rel_path None rb lb) (rel_path None ra la)"
          using less.prems(3) ea eb True by (simp add: dotted_prefix_below)
        ultimately have "place va la None ra (place vb lb None rb (properties_at cur kb)) =
              place vb lb None rb (place va la None ra (properties_at cur kb))"
          using less.hyps[OF la] by blast
        then show ?thesis
          by (simp only: ab ba)
             (simp add: pa pb True properties_at_with_properties with_properties_twice)
      qed
    qed
  qed
qed

lemma mapping_tree_empty: "mapping_tree fmempty"
  by (rule mapping_tree.intros) simp

lemma mapping_tree_node:
  "mapping_tree m \<Longrightarrow> fmlookup m k = Some v \<Longrightarrow>
   \<exists>node. v = PDict node \<and>
     (fmlookup node ''properties'' = None \<or>
      (\<exists>props. fmlookup node ''properties'' = Some (PDict props) \<and> mapping_tree props))"
  by (erule mapping_tree.cases) blast

lemma mapping_tree_properties_at: "mapping_tree m \<Longrightarrow> mapping_tree (properties_at m k)"
proof (cases "fmlookup m k")
  case None
  then show ?thesis by (simp add: properties_at_def mapping_tree_empty)
next
  case (Some v)
  assume "mapping_tree m"
  from mapping_tree_node[OF this Some] show ?thesis
    by (auto simp: properties_at_def Some mapping_tree_empty)
qed

lemma mapping_tree_fmupd:
  assumes "mapping_tree m"
  shows "mapping_tree (fmupd k (dict [(''type'', PStr t)]) m)"
proof (rule mapping_tree.intros)
  fix k' v assume "fmlookup (fmupd k (dict [(''type'', PStr t)]) m) k' = Some v"
  then have "v = dict [(''type'', PStr t)] \<or> fmlookup m k' = Some v"
    by (auto split: if_splits)
  then show "\<exists>node. v = PDict node \<and>
     (fmlookup node ''properties'' = None \<or>
      (\<exists>props. fmlookup node ''properties'' = Some (PDict props) \<and> mapping_tree props))"
  proof
    assume "v = dict [(''type'', PStr t)]"
    then show ?thesis by (simp add: dict_def)
  next
    assume "fmlookup m k' = Some v"
    with assms show ?thesis by (rule mapping_tree_node)
  qed
qed

lemma mapping_tree_with_properties:
  assumes "mapping_tree m" "mapping_tree p"
  shows "mapping_tree (with_properties m k p)"
proof (rule mapping_tree.intros)
  fix k' v assume l: "fmlookup (with_properties m k p) k' = Some v"
  show "\<exists>node. v = PDict node \<and>
     (fmlookup node ''properties'' = None \<or>
      (\<exists>props. fmlookup node ''properties'' = Some (PDict props) \<and> mapping_tree props))"
  proof (cases "k' = k")
    case True
    with l assms(2) show ?thesis by (auto simp: with_properties_def)
  next
    case False
    with l have "fmlookup m k' = Some v" by (simp add: with_properties_def)
    with assms(1) show ?thesis by (rule mapping_tree_node)
  qed
qed

lemma mapping_tree_place:
  "mapping_tree cur \<Longrightarrow> mapping_tree (place (dict [(''type'', PStr t)]) lst ck segs cur)"
proof (induction segs arbitrary: cur ck)
  case Nil
  then show ?case by (simp add: mapping_tree_fmupd)
next
  case (Cons seg segs)
  show ?case
  proof (cases "nested_at cur (join_key ck seg)")
    case True
    have "mapping_tree (place (dict [(''type'', PStr t)]) lst None segs
                          (properties_at cur (join_key ck seg)))"
      by (rule Cons.IH) (rule mapping_tree_properties_at[OF Cons.prems])
    with Cons.prems True show ?thesis
      by (simp add: mapping_tree_with_properties)
  next
    case False
    with Cons.IH[OF Cons.prems] show ?thesis by simp
  qed
qed

text \<open>On a tree of the builder the walk raises nothing, and the loop body does \<open>place\<close>.\<close>

lemma walk_place:
  "mapping_tree cur \<Longrightarrow>
   and_then (walk plug cur ck segs)
     (\<lambda>(plug', cur', ck'). Inr (plug' (fmupd (join_key ck' lst) v cur'))) =
   Inr (plug (place v lst ck segs cur))"
proof (induction segs arbitrary: plug cur ck)
  case Nil
  show ?case by (simp add: and_then_def)
next
  case (Cons seg segs)
  let ?k = "join_key ck seg"
  show ?case
  proof (cases "fmlookup cur ?k")
    case None
    then have "\<not> nested_at cur ?k" by (simp add: nested_at_def)
    with None Cons.IH[OF Cons.prems, of plug "Some ?k"] show ?thesis
      by (simp add: and_then_def dict_def)
  next
    case (Some node')
    from mapping_tree_node[OF Cons.prems Some] obtain node where
      node: "node' = PDict node" and
      props: "fmlookup node ''properties'' = None \<or>
              (\<exists>props. fmlookup node ''properties'' = Some (PDict props) \<and> mapping_tree props)"
      by blast
    show ?thesis
    proof (cases "fmlookup node ''type'' = Some (PStr ''nested'')")
      case False
      then have "\<not> nested_at cur ?k" by (simp add: nested_at_def Some node)
      moreover from False have "(case fmlookup node ''type'' of None \<Rightarrow> PNone | Some ty \<Rightarrow> ty)
                        \<noteq> PStr ''nested''"
        by (cases "fmlookup node ''type''") auto
      ultimately show ?thesis
        using Some node Cons.IH[OF Cons.prems, of plug "Some ?k"]
        by (auto simp: and_then_def split: option.splits)
    next
      case True
      then have n: "nested_at cur ?k" by (simp add: nested_at_def Some node)
      from props show ?thesis
      proof
        assume p: "fmlookup node ''properties'' = None"
        then have pa: "properties_at cur ?k = fmempty"
          by (simp add: properties_at_def Some node)
        from Cons.IH[OF mapping_tree_empty,
            of "\<lambda>p. plug (fmupd ?k (PDict (fmupd ''properties'' (PDict p) node)) cur)" None]
        show ?thesis
          using True n p pa Some node
          by (simp add: and_then_def with_properties_def)
      next
        assume "\<exists>props. fmlookup node ''properties'' = Some (PDict props) \<and> mapping_tree props"
        then obtain props where p: "fmlookup node ''properties'' = Some (PDict props)"
          and t: "mapping_tree props" by blast
        then have pa: "properties_at cur ?k = props"
          by (simp add: properties_at_def Some node)
        from Cons.IH[OF t,
            of "\<lambda>p. plug (fmupd ?k (PDict (fmupd ''properties'' (PDict p) node)) cur)" None]
        show ?thesis
          using True n p pa Some node
          by (simp add: and_then_def with_properties_def)
      qed
    qed
  qed
qed

lemma add_field_place:
  "mapping_tree res \<Longrightarrow> add_field fldtype res fld = Inr (place_field fldtype res fld)"
  using walk_place[of res "\<lambda>p. p" None "butlast (split_on CHR ''.'' fld)"
          "rsplit_last CHR ''.'' fld" "dict [(''type'', PStr fldtype)]"]
  by (simp add: add_field_def place_field_def)

lemma mapping_tree_place_field:
  "mapping_tree res \<Longrightarrow> mapping_tree (place_field fldtype res fld)"
  by (simp add: place_field_def mapping_tree_place)

lemma add_fields_place:
  "mapping_tree res \<Longrightarrow>
   add_fields fldtype res flds = Inr (foldl (place_field fldtype) res flds)"
proof (induction flds arbitrary: res)
  case Nil
  show ?case by simp
next
  case (Cons fld flds)
  from Cons.IH[OF mapping_tree_place_field[OF Cons.prems]] Cons.prems show ?case
    by (simp add: add_field_place and_then_def)
qed

lemma rel_path_field:
  "rel_path None (butlast (split_on CHR ''.'' fld)) (rsplit_last CHR ''.'' fld) = fld"
proof -
  have "butlast (split_on CHR ''.'' fld) @ [last (split_on CHR ''.'' fld)] = split_on CHR ''.'' fld"
    using split_on_not_Nil[of "CHR ''.''" fld] by simp
  then show ?thesis
    by (simp add: rel_path_def join_key_def rsplit_last_split_on join_split_on)
qed

lemma place_field_commute:
  assumes "a \<noteq> b" "\<not> dotted_prefix a b" "\<not> dotted_prefix b a"
  shows "place_field t (place_field t res a) b = place_field t (place_field t res b) a"
  unfolding place_field_def
  by (rule place_commute[symmetric]) (simp_all add: rel_path_field assms)

text \<open>A field can be moved in front of fields that are neither ancestors nor descendants of it.\<close>

lemma place_field_first:
  "(\<And>p. p \<in> set pre \<Longrightarrow> p \<noteq> x \<and> \<not> dotted_prefix p x \<and> \<not> dotted_prefix x p) \<Longrightarrow>
   foldl (place_field t) res (pre @ [x]) = foldl (place_field t) (place_field t res x) pre"
proof (induction pre arbitrary: res)
  case Nil
  show ?case by simp
next
  case (Cons p pre)
  have c: "place_field t (place_field t res p) x = place_field t (place_field t res x) p"
    using Cons.prems[of p] by (intro place_field_commute) auto
  have "foldl (place_field t) (place_field t res p) (pre @ [x]) =
        foldl (place_field t) (place_field t (place_field t res p) x) pre"
    by (rule Cons.IH) (simp add: Cons.prems)
  with c show ?case by simp
qed

lemma ancestor_first_remove:
  "ancestor_first (pre @ x # post) \<Longrightarrow> ancestor_first (pre @ post)"
  by (induction pre) auto

lemma ancestor_first_later:
  "ancestor_first (pre @ x # post) \<Longrightarrow> p \<in> set pre \<Longrightarrow> \<not> dotted_prefix x p"
  by (induction pre) auto

text \<open>
  Two orders of the same paths, in both of which every path comes before its descendants,
  build the same tree.
\<close>

lemma place_fields_order:
  "distinct xs \<Longrightarrow> distinct ys \<Longrightarrow> set xs = set ys \<Longrightarrow> ancestor_first xs \<Longrightarrow>
   ancestor_first ys \<Longrightarrow>
   foldl (place_field t) res xs = foldl (place_field t) res ys"
proof (induction xs arbitrary: ys res)
  case Nil
  then show ?case by simp
next
  case (Cons x xs)
  from Cons.prems(3) have "x \<in> set ys" by auto
  then obtain pre post where ys: "ys = pre @ x # post"
    by (meson split_list)
  from Cons.prems(2) ys have nx: "x \<notin> set pre" "x \<notin> set post" by auto
  have inc: "p \<noteq> x \<and> \<not> dotted_prefix p x \<and> \<not> dotted_prefix x p" if "p \<in> set pre" for p
  proof (intro conjI)
    from that nx show "p \<noteq> x" by auto
    with that ys Cons.prems(3) have "p \<in> set xs" by auto
    with Cons.prems(4) show "\<not> dotted_prefix p x" by simp
    from Cons.prems(5) ys that show "\<not> dotted_prefix x p"
      by (auto dest: ancestor_first_later)
  qed
  have "foldl (place_field t) res ys =
        foldl (place_field t) (foldl (place_field t) res (pre @ [x])) post"
    by (simp add: ys)
  also have "\<dots> = foldl (place_field t) (foldl (place_field t) (place_field t res x) pre) post"
    using place_field_first[of pre x t res] inc by simp
  also have "\<dots> = foldl (place_field t) (place_field t res x) (pre @ post)"
    by simp
  also have "\<dots> = foldl (place_field t) (place_field t res x) xs"
  proof (rule Cons.IH[symmetric])
    from Cons.prems(1) show "distinct xs" by simp
    from Cons.prems(2) ys show "distinct (pre @ post)" by auto
    from Cons.prems(1,3) ys nx show "set xs = set (pre @ post)" by auto
    from Cons.prems(4) show "ancestor_first xs" by simp
    from Cons.prems(5) ys show "ancestor_first (pre @ post)"
      by (auto dest: ancestor_first_remove)
  qed
  finally show ?case by simp
qed

text \<open>
  Claim C2, as amended. For every set of nested field paths, the mapping tree that
  \<^verbatim>\<open>_create_mappings\<close> produces is the same for all the orders of processing in which
  every path comes before the paths that extend it (a path extends another when it is that
  other path, a dot, and more): two lists of the same paths, each path once, both with
  ancestors first, give the same tree, whatever the second argument is. The order
  \<^verbatim>\<open>["ports.scripts", "ports"]\<close> is not of this kind, and the tree for it is not the tree
  for \<^verbatim>\<open>["ports", "ports.scripts"]\<close>.
\<close>

theorem create_mappings_order_independent:
  assumes "distinct nested" "distinct nested'" "set nested' = set nested"
    and "ancestor_first nested" "ancestor_first nested'"
  shows "create_mappings nested' all_mappings = create_mappings nested all_mappings"
proof -
  have "foldl (place_field ''nested'') fmempty nested' =
        foldl (place_field ''nested'') fmempty nested"
    using assms by (intro place_fields_order) auto
  then show ?thesis
    by (simp add: create_mappings_def add_fields_place mapping_tree_empty)
qed

theorem create_mappings_order_independent_witness:
  "create_mappings [''traces'', ''ports'', ''ports.scripts'']
     [(''ip'', [''addr'', ''traces.hops.ipaddr'']), (''date'', [''starttime''])] =
   create_mappings [''ports'', ''ports.scripts'', ''traces'']
     [(''ip'', [''addr'', ''traces.hops.ipaddr'']), (''date'', [''starttime''])]
   \<and> create_mappings [''ports'', ''traces'', ''ports.scripts'']
     [(''ip'', [''addr'', ''traces.hops.ipaddr'']), (''date'', [''starttime''])] =
   create_mappings [''ports'', ''ports.scripts'', ''traces'']
     [(''ip'', [''addr'', ''traces.hops.ipaddr'']), (''date'', [''starttime''])]
   \<and> create_mappings [''ports'', ''ports.scripts'', ''traces'']
     [(''ip'', [''addr'', ''traces.hops.ipaddr'']), (''date'', [''starttime''])] =
     Inr (dict [(''ports'',
                   dict [(''type'', PStr ''nested''),
                         (''properties'', dict [(''scripts'', dict [(''type'', PStr ''nested'')])])]),
                (''traces'',
                   dict [(''type'', PStr ''nested''),
                         (''properties'',
                            dict [(''hops.ipaddr'', dict [(''type'', PStr ''ip'')])])]),
                (''addr'', dict [(''type'', PStr ''ip'')]),
                (''starttime'', dict [(''type'', PStr ''date'')])])"
proof -
  have d: "distinct [''ports'', ''ports.scripts'', ''traces'']"
    "distinct [''traces'', ''ports'', ''ports.scripts'']"
    "distinct [''ports'', ''traces'', ''ports.scripts'']"
    by simp_all
  have s: "set [''traces'', ''ports'', ''ports.scripts''] = set [''ports'', ''ports.scripts'', ''traces'']"
    "set [''ports'', ''traces'', ''ports.scripts''] = set [''ports'', ''ports.scripts'', ''traces'']"
    by auto
  have a: "ancestor_first [''ports'', ''ports.scripts'', ''traces'']"
    "ancestor_first [''traces'', ''ports'', ''ports.scripts'']"
    "ancestor_first [''ports'', ''traces'', ''ports.scripts'']"
    by (simp_all add: dotted_prefix_def)
  have c: "create_mappings [''ports'', ''ports.scripts'', ''traces'']
     [(''ip'', [''addr'', ''traces.hops.ipaddr'']), (''date'', [''starttime''])] =
     Inr (dict [(''ports'',
                   dict [(''type'', PStr ''nested''),
                         (''properties'', dict [(''scripts'', dict [(''type'', PStr ''nested'')])])]),
                (''traces'',
                   dict [(''type'', PStr ''nested''),
                         (''properties'',
                            dict [(''hops.ipaddr'', dict [(''type'', PStr ''ip'')])])]),
                (''addr'', dict [(''type'', PStr ''ip'')]),
                (''starttime'', dict [(''type'', PStr ''date'')])])"
    by code_simp
  from create_mappings_order_independent[OF d(1) d(2) s(1) a(1) a(2)]
       create_mappings_order_independent[OF d(1) d(3) s(2) a(1) a(3)] c
  show ?thesis
    by simp
qed

text \<open>
  The claim as worded fails on its own example: with the descendant first, the path
  \<^verbatim>\<open>ports.scripts\<close> becomes a key of the top level, and then the tree is not the one that
  the order \<^verbatim>\<open>["ports", "ports.scripts"]\<close> gives, where it is below \<^verbatim>\<open>ports\<close>.
\<close>

theorem create_mappings_order_counterexample:
  "create_mappings [''ports'', ''ports.scripts''] [] =
     Inr (dict [(''ports'',
                 dict [(''type'', PStr ''nested''),
                       (''properties'', dict [(''scripts'', dict [(''type'', PStr ''nested'')])])])])
   \<and> create_mappings [''ports.scripts'', ''ports''] [] =
     Inr (dict [(''ports.scripts'', dict [(''type'', PStr ''nested'')]),
                (''ports'', dict [(''type'', PStr ''nested'')])])
   \<and> create_mappings [''ports.scripts'', ''ports''] [] \<noteq>
     create_mappings [''ports'', ''ports.scripts''] []"
  by code_simp


section \<open>Properties of the Aggregation Engine\<close>

subsection \<open>Pagination of \<^verbatim>\<open>distinct\<close>\<close>

lemma page_at_shift:
  "page_at search ko fx field fltd query s (Suc n) =
     page_at search ko fx field fltd
       (fst (page_step search ko fx field fltd (query, s)))
       (snd (page_step search ko fx field fltd (query, s))) n"
  by (induction n) simp_all

text \<open>
  The loop, when the responses to the requests 0 to \<open>n - 1\<close> carry a token and the response
  to request \<open>n\<close> carries none, none of them raising: it ends after request \<open>n\<close>, having
  yielded the values of the pages in order.
\<close>

lemma distinct_loop_pages:
  assumes "\<forall>k<n. \<exists>tok.
             snd (distinct_page ko fx field
                    (fst (search (snd (page_at search ko fx field fltd query s k))
                            (composite_body fltd (fst (page_at search ko fx field fltd query s k))))))
             = Inr (Some tok)"
    and "snd (distinct_page ko fx field
                (fst (search (snd (page_at search ko fx field fltd query s n))
                        (composite_body fltd (fst (page_at search ko fx field fltd query s n))))))
         = Inr None"
  shows "distinct_loop search ko fx field fltd query s =
     Some (concat (map (\<lambda>k. fst (distinct_page ko fx field
                    (fst (search (snd (page_at search ko fx field fltd query s k))
                            (composite_body fltd (fst (page_at search ko fx field fltd query s k)))))))
                   [0..<Suc n]),
           None,
           snd (search (snd (page_at search ko fx field fltd query s n))
                  (composite_body fltd (fst (page_at search ko fx field fltd query s n)))))"
  using assms
proof (induction n arbitrary: query s)
  case 0
  obtain result s' where r: "search s (composite_body fltd query) = (result, s')"
    by (cases "search s (composite_body fltd query)")
  obtain ys where p: "distinct_page ko fx field result = (ys, Inr None)"
    using 0(2) r by (cases "distinct_page ko fx field result") simp
  show ?case
    by (subst distinct_loop.simps) (simp add: r p)
next
  case (Suc n)
  obtain result s' where r: "search s (composite_body fltd query) = (result, s')"
    by (cases "search s (composite_body fltd query)")
  from Suc.prems(1) obtain tok where
    "snd (distinct_page ko fx field
            (fst (search (snd (page_at search ko fx field fltd query s 0))
                    (composite_body fltd (fst (page_at search ko fx field fltd query s 0))))))
     = Inr (Some tok)"
    by blast
  then obtain ys where p: "distinct_page ko fx field result = (ys, Inr (Some tok))"
    using r by (cases "distinct_page ko fx field result") simp
  have one: "page_step search ko fx field fltd (query, s) = (fmupd ''after'' tok query, s')"
    by (simp add: page_step_def r p)
  have a: "\<forall>k<n. \<exists>tok'.
             snd (distinct_page ko fx field
                    (fst (search (snd (page_at search ko fx field fltd (fmupd ''after'' tok query) s' k))
                            (composite_body fltd
                               (fst (page_at search ko fx field fltd (fmupd ''after'' tok query) s' k))))))
             = Inr (Some tok')"
  proof (intro allI impI)
    fix k assume "k < n"
    then have "Suc k < Suc n" by simp
    with Suc.prems(1) obtain tok' where
      "snd (distinct_page ko fx field
              (fst (search (snd (page_at search ko fx field fltd query s (Suc k)))
                      (composite_body fltd (fst (page_at search ko fx field fltd query s (Suc k)))))))
       = Inr (Some tok')"
      by blast
    then show "\<exists>tok'.
             snd (distinct_page ko fx field
                    (fst (search (snd (page_at search ko fx field fltd (fmupd ''after'' tok query) s' k))
                            (composite_body fltd
                               (fst (page_at search ko fx field fltd (fmupd ''after'' tok query) s' k))))))
             = Inr (Some tok')"
      by (simp only: page_at_shift one fst_conv snd_conv) blast
  qed
  have b: "snd (distinct_page ko fx field
                (fst (search (snd (page_at search ko fx field fltd (fmupd ''after'' tok query) s' n))
                        (composite_body fltd
                           (fst (page_at search ko fx field fltd (fmupd ''after'' tok query) s' n))))))
         = Inr None"
    using Suc.prems(2) by (simp only: page_at_shift one fst_conv snd_conv)
  have split: "[0..<Suc (Suc n)] = 0 # map Suc [0..<Suc n]"
    by (simp only: map_Suc_upt upt_conv_Cons[of 0 "Suc (Suc n)"])
  show ?case
    apply (subst distinct_loop.simps)
    apply (simp only: r p prod.case sum.case option.case Suc.IH[OF a b])
    apply (simp only: split list.map map_map comp_def concat.simps page_at_shift one
             fst_conv snd_conv page_at.simps(1) r p)
    apply simp
    done
qed

lemma page_step_after:
  "fmupd ''after'' t (fst (page_step search ko fx field fltd qs)) = fmupd ''after'' t (fst qs)"
  by (simp add: page_step_def split: prod.splits sum.splits option.splits)

lemma page_at_after:
  "fmupd ''after'' t (fst (page_at search ko fx field fltd query s n)) = fmupd ''after'' t query"
  by (induction n) (simp_all add: page_step_after)

lemma page_step_state:
  "snd (page_step search ko fx field fltd qs) =
     snd (search (snd qs) (composite_body fltd (fst qs)))"
  by (simp add: page_step_def split: prod.splits sum.splits option.splits)

lemma gen_map_try_map: "gen_map f xs = (ys, None) \<Longrightarrow> try_map f xs = Inr ys"
  by (induction xs arbitrary: ys) (auto split: sum.splits prod.splits)

text \<open>The expressions of the loop, as paths into the response and into a bucket.\<close>

lemma page_buckets_path:
  "page_buckets ko result =
     and_then (py_path result [''aggregations'', ''values'', ''buckets'']) (py_iter ko)"
  by (simp add: page_buckets_def aggregation_values_def and_then_def split: sum.splits)

lemma bucket_value_path:
  "bucket_value fx field = (\<lambda>bucket. and_then (py_path bucket [''key'', field]) fx)"
  by (rule ext) (simp add: bucket_value_def and_then_def split: sum.splits)

lemma aggregation_values_path:
  "aggregation_values result = py_path result [''aggregations'', ''values'']"
  by (simp add: aggregation_values_def and_then_def split: sum.splits)

text \<open>
  What the loop makes of a response that raises nothing: one value for each bucket, in the
  order of the buckets, and the response's \<^verbatim>\<open>after_key\<close> as the token, if it has one.
\<close>

lemma distinct_page_values:
  assumes "snd (distinct_page ko fx field result) = Inr t"
  shows "\<exists>buckets.
           and_then (py_path result [''aggregations'', ''values'', ''buckets'']) (py_iter ko) =
             Inr buckets \<and>
           try_map (\<lambda>bucket. and_then (py_path bucket [''key'', field]) fx) buckets =
             Inr (fst (distinct_page ko fx field result))"
proof (cases "page_buckets ko result")
  case (Inl e)
  with assms show ?thesis by (simp add: distinct_page_def)
next
  case (Inr buckets)
  obtain ys r where g: "gen_map (bucket_value fx field) buckets = (ys, r)"
    by (cases "gen_map (bucket_value fx field) buckets")
  with assms Inr have "r = None"
    by (cases r) (simp_all add: distinct_page_def)
  with g have "try_map (bucket_value fx field) buckets = Inr ys"
    by (simp add: gen_map_try_map)
  moreover from g Inr \<open>r = None\<close> have "fst (distinct_page ko fx field result) = ys"
    by (simp add: distinct_page_def)
  ultimately show ?thesis
    using Inr by (simp add: page_buckets_path bucket_value_path)
qed

lemma distinct_page_token:
  assumes "snd (distinct_page ko fx field result) = Inr (Some tok)"
  shows "py_path result [''aggregations'', ''values'', ''after_key''] = Inr tok"
  using assms
  by (auto simp: distinct_page_def aggregation_values_def and_then_def
           split: sum.splits prod.splits option.splits if_splits)

lemma distinct_page_end:
  assumes "snd (distinct_page ko fx field result) = Inr None"
  shows "and_then (py_path result [''aggregations'', ''values'']) (py_contains ''after_key'') =
           Inr False"
  using assms
  by (auto simp: distinct_page_def aggregation_values_def and_then_def
           split: sum.splits prod.splits option.splits if_splits)

text \<open>
  Conversely, a call that ends without an exception has met a response without token,
  after responses that all carried one.
\<close>

lemma distinct_loop_ends_only_if:
  assumes "distinct_loop search ko fx field fltd query s = Some res"
  shows "fst (snd res) = None \<longrightarrow>
         (\<exists>n. (\<forall>k<n. \<exists>tok.
                 snd (distinct_page ko fx field
                        (fst (search (snd (page_at search ko fx field fltd query s k))
                                (composite_body fltd
                                   (fst (page_at search ko fx field fltd query s k))))))
                 = Inr (Some tok)) \<and>
              snd (distinct_page ko fx field
                     (fst (search (snd (page_at search ko fx field fltd query s n))
                             (composite_body fltd
                                (fst (page_at search ko fx field fltd query s n))))))
              = Inr None)"
proof (rule distinct_loop.raw_induct[where
    P = "\<lambda>search ko fx field fltd query s res. fst (snd res) = None \<longrightarrow>
         (\<exists>n. (\<forall>k<n. \<exists>tok.
                 snd (distinct_page ko fx field
                        (fst (search (snd (page_at search ko fx field fltd query s k))
                                (composite_body fltd
                                   (fst (page_at search ko fx field fltd query s k))))))
                 = Inr (Some tok)) \<and>
              snd (distinct_page ko fx field
                     (fst (search (snd (page_at search ko fx field fltd query s n))
                             (composite_body fltd
                                (fst (page_at search ko fx field fltd query s n))))))
              = Inr None)", OF _ assms])
  fix f search ko fx field fltd query s and res :: "pyval list \<times> error option \<times> 'b"
  assume IH: "\<And>search ko fx field fltd query s res.
     f search ko fx field fltd query s = Some res \<Longrightarrow>
     fst (snd res) = None \<longrightarrow>
         (\<exists>n. (\<forall>k<n. \<exists>tok.
                 snd (distinct_page ko fx field
                        (fst (search (snd (page_at search ko fx field fltd query s k))
                                (composite_body fltd
                                   (fst (page_at search ko fx field fltd query s k))))))
                 = Inr (Some tok)) \<and>
              snd (distinct_page ko fx field
                     (fst (search (snd (page_at search ko fx field fltd query s n))
                             (composite_body fltd
                                (fst (page_at search ko fx field fltd query s n))))))
              = Inr None)"
    and step: "(case search s (composite_body fltd query) of
      (result, s') \<Rightarrow>
        case distinct_page ko fx field result of
          (ys, Inl e) \<Rightarrow> Some (ys, Some e, s')
        | (ys, Inr None) \<Rightarrow> Some (ys, None, s')
        | (ys, Inr (Some k)) \<Rightarrow>
            Option.bind (f search ko fx field fltd (fmupd ''after'' k query) s')
              (\<lambda>(zs, r, s''). Some (ys @ zs, r, s''))) = Some res"
  obtain result s' where r: "search s (composite_body fltd query) = (result, s')"
    by (cases "search s (composite_body fltd query)")
  obtain ys t where p: "distinct_page ko fx field result = (ys, t)"
    by (cases "distinct_page ko fx field result")
  show "fst (snd res) = None \<longrightarrow>
         (\<exists>n. (\<forall>k<n. \<exists>tok.
                 snd (distinct_page ko fx field
                        (fst (search (snd (page_at search ko fx field fltd query s k))
                                (composite_body fltd
                                   (fst (page_at search ko fx field fltd query s k))))))
                 = Inr (Some tok)) \<and>
              snd (distinct_page ko fx field
                     (fst (search (snd (page_at search ko fx field fltd query s n))
                             (composite_body fltd
                                (fst (page_at search ko fx field fltd query s n))))))
              = Inr None)"
  proof
    assume none: "fst (snd res) = None"
    show "\<exists>n. (\<forall>k<n. \<exists>tok.
                 snd (distinct_page ko fx field
                        (fst (search (snd (page_at search ko fx field fltd query s k))
                                (composite_body fltd
                                   (fst (page_at search ko fx field fltd query s k))))))
                 = Inr (Some tok)) \<and>
              snd (distinct_page ko fx field
                     (fst (search (snd (page_at search ko fx field fltd query s n))
                             (composite_body fltd
                                (fst (page_at search ko fx field fltd query s n))))))
              = Inr None"
    proof (cases t)
      case (Inl e)
      with step none show ?thesis by (auto simp: r p)
    next
      case (Inr tk)
      show ?thesis
      proof (cases tk)
        case None
        with Inr have "snd (distinct_page ko fx field
                     (fst (search (snd (page_at search ko fx field fltd query s 0))
                             (composite_body fltd
                                (fst (page_at search ko fx field fltd query s 0))))))
              = Inr None"
          by (simp add: r p)
        then show ?thesis
          by (intro exI[of _ 0]) simp
      next
        case (Some tok)
        with Inr have t: "t = Inr (Some tok)" by simp
        have one: "page_step search ko fx field fltd (query, s) = (fmupd ''after'' tok query, s')"
          by (simp add: page_step_def r p t)
        from step obtain res' where
          f: "f search ko fx field fltd (fmupd ''after'' tok query) s' = Some res'"
          and res: "res = (ys @ fst res', fst (snd res'), snd (snd res'))"
          by (auto simp: r p t split: Option.bind_splits)
        from res none have "fst (snd res') = None" by simp
        with IH[OF f] obtain n where
          n1: "\<forall>k<n. \<exists>tok'.
                 snd (distinct_page ko fx field
                        (fst (search (snd (page_at search ko fx field fltd (fmupd ''after'' tok query) s' k))
                                (composite_body fltd
                                   (fst (page_at search ko fx field fltd
                                           (fmupd ''after'' tok query) s' k))))))
                 = Inr (Some tok')"
          and n2: "snd (distinct_page ko fx field
                     (fst (search (snd (page_at search ko fx field fltd (fmupd ''after'' tok query) s' n))
                             (composite_body fltd
                                (fst (page_at search ko fx field fltd
                                        (fmupd ''after'' tok query) s' n))))))
              = Inr None"
          by blast
        have "\<forall>k<Suc n. \<exists>tok'.
                 snd (distinct_page ko fx field
                        (fst (search (snd (page_at search ko fx field fltd query s k))
                                (composite_body fltd
                                   (fst (page_at search ko fx field fltd query s k))))))
                 = Inr (Some tok')"
        proof (intro allI impI)
          fix k assume k: "k < Suc n"
          show "\<exists>tok'.
                 snd (distinct_page ko fx field
                        (fst (search (snd (page_at search ko fx field fltd query s k))
                                (composite_body fltd
                                   (fst (page_at search ko fx field fltd query s k))))))
                 = Inr (Some tok')"
          proof (cases k)
            case 0
            then show ?thesis by (simp add: r p t)
          next
            case (Suc j)
            with k have "j < n" by simp
            with n1 obtain tok' where
              "snd (distinct_page ko fx field
                        (fst (search (snd (page_at search ko fx field fltd (fmupd ''after'' tok query) s' j))
                                (composite_body fltd
                                   (fst (page_at search ko fx field fltd
                                           (fmupd ''after'' tok query) s' j))))))
                 = Inr (Some tok')"
              by blast
            then show ?thesis
              unfolding Suc by (simp add: page_at_shift one del: page_at.simps)
          qed
        qed
        moreover have "snd (distinct_page ko fx field
                     (fst (search (snd (page_at search ko fx field fltd query s (Suc n)))
                             (composite_body fltd
                                (fst (page_at search ko fx field fltd query s (Suc n)))))))
              = Inr None"
          using n2 by (simp add: page_at_shift one del: page_at.simps)
        ultimately show ?thesis by blast
      qed
    qed
  qed
qed

text \<open>An engine that keeps the bodies it receives answers as the engine it is made of.\<close>

lemma page_step_logging:
  "page_step (logging search) ko fx field fltd (q, (s, lg)) =
     (fst (page_step search ko fx field fltd (q, s)),
      snd (page_step search ko fx field fltd (q, s)),
      lg @ [composite_body fltd q])"
  by (simp add: page_step_def logging_def split: prod.splits sum.splits option.splits)

lemma page_at_logging:
  "page_at (logging search) ko fx field fltd query (s, lg) n =
     (fst (page_at search ko fx field fltd query s n),
      snd (page_at search ko fx field fltd query s n),
      lg @ map (\<lambda>k. composite_body fltd (fst (page_at search ko fx field fltd query s k)))
              [0..<n])"
proof (induction n)
  case 0
  show ?case by simp
next
  case (Suc n)
  show ?case
    by (simp only: page_at.simps Suc page_step_logging prod.collapse upt_Suc_append[OF le0]
          map_append list.map append_assoc)
qed

lemma logging_response:
  "fst (logging search (snd (page_at (logging search) ko fx field fltd query (s, lg) n))
          (composite_body fltd (fst (page_at (logging search) ko fx field fltd query (s, lg) n)))) =
   fst (search (snd (page_at search ko fx field fltd query s n))
          (composite_body fltd (fst (page_at search ko fx field fltd query s n))))"
  by (simp only: page_at_logging fst_conv snd_conv) (simp add: logging_def split: prod.splits)

lemma logging_state:
  "snd (logging search (snd (page_at (logging search) ko fx field fltd query (s, []) n))
          (composite_body fltd (fst (page_at (logging search) ko fx field fltd query (s, []) n)))) =
   (snd (search (snd (page_at search ko fx field fltd query s n))
           (composite_body fltd (fst (page_at search ko fx field fltd query s n)))),
    map (\<lambda>k. composite_body fltd (fst (page_at search ko fx field fltd query s k))) [0..<Suc n])"
  by (simp only: page_at_logging fst_conv snd_conv) (simp add: logging_def split: prod.splits)

text \<open>The body of the first request, and of a request whose dictionary holds a token.\<close>

lemma composite_body_first:
  "composite_body fltd (distinct_query field) =
     dict [(''query'', fltd),
           (''aggs'',
            dict [(''values'',
              dict [(''composite'',
                dict [(''size'', PInt 250),
                      (''sources'',
                       PList [dict [(field, dict [(''terms'', distinct_base_query field)])]])])])])]"
  by (simp add: composite_body_def distinct_query_def dict_def PAGESIZE_def)

lemma composite_body_after:
  "composite_body fltd (fmupd ''after'' tok (distinct_query field)) =
     dict [(''query'', fltd),
           (''aggs'',
            dict [(''values'',
              dict [(''composite'',
                dict [(''size'', PInt 250),
                      (''sources'',
                       PList [dict [(field, dict [(''terms'', distinct_base_query field)])]]),
                      (''after'', tok)])])])]"
proof -
  have "fmupd ''after'' tok (distinct_query field) =
        fmap_of_list
          [(''size'', PInt 250),
           (''sources'', PList [dict [(field, dict [(''terms'', distinct_base_query field)])]]),
           (''after'', tok)]"
    by (rule fmap_ext) (auto simp: distinct_query_def PAGESIZE_def)
  then show ?thesis
    by (simp add: composite_body_def dict_def)
qed

text \<open>
  Claim C6. \<^verbatim>\<open>distinct\<close> paginates: every request is a composite aggregation of page size
  250; each response's \<^verbatim>\<open>after_key\<close> is the \<^verbatim>\<open>after\<close> of the next request; the values of
  every bucket of every page are yielded in order; and the requests stop with the first
  response that carries no \<^verbatim>\<open>after_key\<close>, so that, when the engine gives such a response,
  the generator ends and the sequence it yields is finite.

  The first part of the statement is about a call in which the responses to the requests 0
  to \<open>n - 1\<close> carry a token and the response to request \<open>n\<close> is the first that carries none,
  no response raising an exception in the loop. Then the call returns; it has yielded, page
  after page and bucket after bucket, \<^verbatim>\<open>fix_result(bucket['key'][field])\<close>; the engine has
  received the requests 0 to \<open>n\<close> and no other (an engine that keeps the bodies it receives
  holds exactly these at the end), each in the state that the request before left, and is
  left in the state that follows request \<open>n\<close>. The body of request 0 holds the composite
  aggregation with \<^verbatim>\<open>size\<close> 250 and no entry \<^verbatim>\<open>after\<close>; the body of request \<open>k + 1\<close> is the
  same with the \<^verbatim>\<open>after_key\<close> of response \<open>k\<close> as the entry \<^verbatim>\<open>after\<close>; response \<open>n\<close> has no
  \<^verbatim>\<open>after_key\<close>.

  The second part is the converse: a call that ends without an exception has met a
  response without token, after responses that all carried one.
\<close>

theorem distinct_pagination:
  "((\<forall>k<n. \<exists>tok. snd (distinct_outcome search ev field flt s k) = Inr (Some tok)) \<and>
    snd (distinct_outcome search ev field flt s n) = Inr None \<longrightarrow>
      distinct_values search ev field flt s =
        Some (concat (map (\<lambda>k. fst (distinct_outcome search ev field flt s k)) [0..<Suc n]),
              None,
              snd (distinct_response search ev field flt s n))
      \<and> distinct_values (logging search) ev field flt (s, []) =
        Some (concat (map (\<lambda>k. fst (distinct_outcome search ev field flt s k)) [0..<Suc n]),
              None,
              (snd (distinct_response search ev field flt s n),
               map (\<lambda>k. distinct_request search ev field flt s k) [0..<Suc n]))
      \<and> (\<forall>k\<le>n. \<exists>buckets.
            and_then
              (py_path (fst (distinct_response search ev field flt s k))
                 [''aggregations'', ''values'', ''buckets''])
              (py_iter (key_order ev)) = Inr buckets \<and>
            try_map (\<lambda>bucket. and_then (py_path bucket [''key'', field])
                                 (distinct_fix_result ev field)) buckets =
              Inr (fst (distinct_outcome search ev field flt s k)))
      \<and> distinct_state search ev field flt s 0 = s
      \<and> (\<forall>k. distinct_response search ev field flt s k =
              search (distinct_state search ev field flt s k)
                (distinct_request search ev field flt s k) \<and>
            distinct_state search ev field flt s (Suc k) =
              snd (distinct_response search ev field flt s k))
      \<and> distinct_request search ev field flt s 0 =
          dict [(''query'', to_dict ev (distinct_flt field flt)),
                (''aggs'',
                 dict [(''values'',
                   dict [(''composite'',
                     dict [(''size'', PInt 250),
                           (''sources'',
                            PList [dict [(field,
                              dict [(''terms'', distinct_base_query field)])]])])])])]
      \<and> (\<forall>k<n. \<exists>tok.
            py_path (fst (distinct_response search ev field flt s k))
              [''aggregations'', ''values'', ''after_key''] = Inr tok \<and>
            distinct_request search ev field flt s (Suc k) =
              dict [(''query'', to_dict ev (distinct_flt field flt)),
                    (''aggs'',
                     dict [(''values'',
                       dict [(''composite'',
                         dict [(''size'', PInt 250),
                               (''sources'',
                                PList [dict [(field,
                                  dict [(''terms'', distinct_base_query field)])]]),
                               (''after'', tok)])])])])
      \<and> and_then
          (py_path (fst (distinct_response search ev field flt s n)) [''aggregations'', ''values''])
          (py_contains ''after_key'') = Inr False)
   \<and> (distinct_values search ev field flt s = Some (ys, None, s') \<longrightarrow>
        (\<exists>m. (\<forall>k<m. \<exists>tok. snd (distinct_outcome search ev field flt s k) = Inr (Some tok)) \<and>
             snd (distinct_outcome search ev field flt s m) = Inr None))"
proof (intro conjI impI)
  assume r: "distinct_values search ev field flt s = Some (ys, None, s')"
  from distinct_loop_ends_only_if[OF r[unfolded distinct_values_def]]
  show "\<exists>m. (\<forall>k<m. \<exists>tok. snd (distinct_outcome search ev field flt s k) = Inr (Some tok)) \<and>
             snd (distinct_outcome search ev field flt s m) = Inr None"
    unfolding distinct_outcome_def distinct_response_def
      distinct_request_def distinct_state_def distinct_composite_def
    by simp
next
  assume "(\<forall>k<n. \<exists>tok. snd (distinct_outcome search ev field flt s k) = Inr (Some tok)) \<and>
    snd (distinct_outcome search ev field flt s n) = Inr None"
  then have tokens: "\<forall>k<n. \<exists>tok. snd (distinct_outcome search ev field flt s k) = Inr (Some tok)"
    and last: "snd (distinct_outcome search ev field flt s n) = Inr None"
    by simp_all
  show "distinct_values search ev field flt s =
        Some (concat (map (\<lambda>k. fst (distinct_outcome search ev field flt s k)) [0..<Suc n]),
              None,
              snd (distinct_response search ev field flt s n))"
    unfolding distinct_values_def distinct_outcome_def distinct_response_def
      distinct_request_def distinct_state_def distinct_composite_def
    by (rule distinct_loop_pages)
       (use tokens last in \<open>simp_all only: distinct_outcome_def distinct_response_def
          distinct_request_def distinct_state_def distinct_composite_def\<close>)
  have "distinct_loop (logging search) (key_order ev) (distinct_fix_result ev field) field
          (to_dict ev (distinct_flt field flt)) (distinct_query field) (s, []) =
        Some (concat (map (\<lambda>k. fst (distinct_page (key_order ev) (distinct_fix_result ev field) field
                (fst (logging search
                       (snd (page_at (logging search) (key_order ev) (distinct_fix_result ev field)
                               field (to_dict ev (distinct_flt field flt)) (distinct_query field)
                               (s, []) k))
                       (composite_body (to_dict ev (distinct_flt field flt))
                          (fst (page_at (logging search) (key_order ev)
                                  (distinct_fix_result ev field) field
                                  (to_dict ev (distinct_flt field flt)) (distinct_query field)
                                  (s, []) k)))))))
                [0..<Suc n]),
              None,
              snd (logging search
                     (snd (page_at (logging search) (key_order ev) (distinct_fix_result ev field)
                             field (to_dict ev (distinct_flt field flt)) (distinct_query field)
                             (s, []) n))
                     (composite_body (to_dict ev (distinct_flt field flt))
                        (fst (page_at (logging search) (key_order ev)
                                (distinct_fix_result ev field) field
                                (to_dict ev (distinct_flt field flt)) (distinct_query field)
                                (s, []) n)))))"
    by (rule distinct_loop_pages)
       (use tokens last in \<open>simp_all only: logging_response distinct_outcome_def
          distinct_response_def distinct_request_def distinct_state_def distinct_composite_def\<close>)
  then show "distinct_values (logging search) ev field flt (s, []) =
        Some (concat (map (\<lambda>k. fst (distinct_outcome search ev field flt s k)) [0..<Suc n]),
              None,
              (snd (distinct_response search ev field flt s n),
               map (\<lambda>k. distinct_request search ev field flt s k) [0..<Suc n]))"
    by (simp only: logging_response logging_state distinct_values_def distinct_outcome_def
          distinct_response_def distinct_request_def distinct_state_def distinct_composite_def)
  show "\<forall>k\<le>n. \<exists>buckets.
            and_then
              (py_path (fst (distinct_response search ev field flt s k))
                 [''aggregations'', ''values'', ''buckets''])
              (py_iter (key_order ev)) = Inr buckets \<and>
            try_map (\<lambda>bucket. and_then (py_path bucket [''key'', field])
                                 (distinct_fix_result ev field)) buckets =
              Inr (fst (distinct_outcome search ev field flt s k))"
  proof (intro allI impI)
    fix k assume "k \<le> n"
    then have "k < n \<or> k = n" by auto
    with tokens last obtain t where "snd (distinct_outcome search ev field flt s k) = Inr t"
      by blast
    then show "\<exists>buckets.
            and_then
              (py_path (fst (distinct_response search ev field flt s k))
                 [''aggregations'', ''values'', ''buckets''])
              (py_iter (key_order ev)) = Inr buckets \<and>
            try_map (\<lambda>bucket. and_then (py_path bucket [''key'', field])
                                 (distinct_fix_result ev field)) buckets =
              Inr (fst (distinct_outcome search ev field flt s k))"
      unfolding distinct_outcome_def by (rule distinct_page_values)
  qed
  show "distinct_state search ev field flt s 0 = s"
    by (simp add: distinct_state_def)
  show "\<forall>k. distinct_response search ev field flt s k =
              search (distinct_state search ev field flt s k)
                (distinct_request search ev field flt s k) \<and>
            distinct_state search ev field flt s (Suc k) =
              snd (distinct_response search ev field flt s k)"
    by (simp add: distinct_response_def distinct_state_def distinct_request_def
          distinct_composite_def page_step_state)
  show "distinct_request search ev field flt s 0 =
          dict [(''query'', to_dict ev (distinct_flt field flt)),
                (''aggs'',
                 dict [(''values'',
                   dict [(''composite'',
                     dict [(''size'', PInt 250),
                           (''sources'',
                            PList [dict [(field,
                              dict [(''terms'', distinct_base_query field)])]])])])])]"
    by (simp add: distinct_request_def distinct_composite_def composite_body_first)
  show "\<forall>k<n. \<exists>tok.
            py_path (fst (distinct_response search ev field flt s k))
              [''aggregations'', ''values'', ''after_key''] = Inr tok \<and>
            distinct_request search ev field flt s (Suc k) =
              dict [(''query'', to_dict ev (distinct_flt field flt)),
                    (''aggs'',
                     dict [(''values'',
                       dict [(''composite'',
                         dict [(''size'', PInt 250),
                               (''sources'',
                                PList [dict [(field,
                                  dict [(''terms'', distinct_base_query field)])]]),
                               (''after'', tok)])])])]"
  proof (intro allI impI)
    fix k assume "k < n"
    with tokens obtain tok where
      t: "snd (distinct_outcome search ev field flt s k) = Inr (Some tok)"
      by blast
    then have key: "py_path (fst (distinct_response search ev field flt s k))
              [''aggregations'', ''values'', ''after_key''] = Inr tok"
      unfolding distinct_outcome_def by (rule distinct_page_token)
    from t have "distinct_composite search ev field flt s (Suc k) =
                 fmupd ''after'' tok (distinct_composite search ev field flt s k)"
      by (auto simp: distinct_composite_def distinct_outcome_def distinct_response_def
            distinct_request_def distinct_state_def page_step_def split: prod.splits)
    then have "distinct_composite search ev field flt s (Suc k) =
                 fmupd ''after'' tok (distinct_query field)"
      by (simp add: distinct_composite_def page_at_after)
    then have "distinct_request search ev field flt s (Suc k) =
              dict [(''query'', to_dict ev (distinct_flt field flt)),
                    (''aggs'',
                     dict [(''values'',
                       dict [(''composite'',
                         dict [(''size'', PInt 250),
                               (''sources'',
                                PList [dict [(field,
                                  dict [(''terms'', distinct_base_query field)])]]),
                               (''after'', tok)])])])]"
      by (simp only: distinct_request_def composite_body_after)
    with key show "\<exists>tok.
            py_path (fst (distinct_response search ev field flt s k))
              [''aggregations'', ''values'', ''after_key''] = Inr tok \<and>
            distinct_request search ev field flt s (Suc k) =
              dict [(''query'', to_dict ev (distinct_flt field flt)),
                    (''aggs'',
                     dict [(''values'',
                       dict [(''composite'',
                         dict [(''size'', PInt 250),
                               (''sources'',
                                PList [dict [(field,
                                  dict [(''terms'', distinct_base_query field)])]]),
                               (''after'', tok)])])])]"
      by blast
  qed
  show "and_then
          (py_path (fst (distinct_response search ev field flt s n)) [''aggregations'', ''values''])
          (py_contains ''after_key'') = Inr False"
    using last unfolding distinct_outcome_def by (rule distinct_page_end)
qed


theorem distinct_pagination_witness:
  "distinct_values two_pages sample_env ''infos.as_num'' None 0 =
     Some ([PInt 8075, PInt 15169], None, 2)
   \<and> distinct_values (logging two_pages) sample_env ''infos.as_num'' None (0, []) =
     Some ([PInt 8075, PInt 15169], None,
           (2,
            [dict [(''query'', dict [(''match_all'', dict [])]),
                   (''aggs'',
                    dict [(''values'',
                      dict [(''composite'',
                        dict [(''size'', PInt 250),
                              (''sources'',
                               PList [dict [(''infos.as_num'',
                                 dict [(''terms'', dict [(''field'', PStr ''infos.as_num'')])])]])])])])],
             dict [(''query'', dict [(''match_all'', dict [])]),
                   (''aggs'',
                    dict [(''values'',
                      dict [(''composite'',
                        dict [(''size'', PInt 250),
                              (''sources'',
                               PList [dict [(''infos.as_num'',
                                 dict [(''terms'', dict [(''field'', PStr ''infos.as_num'')])])]]),
                              (''after'', dict [(''infos.as_num'', PInt 8075)])])])])]]))"
proof -
  have o0: "distinct_outcome two_pages sample_env ''infos.as_num'' None 0 0 =
              ([PInt 8075], Inr (Some (dict [(''infos.as_num'', PInt 8075)])))"
    by code_simp
  have o1: "distinct_outcome two_pages sample_env ''infos.as_num'' None 0 (Suc 0) =
              ([PInt 15169], Inr None)"
    by code_simp
  have k0: "py_path (fst (distinct_response two_pages sample_env ''infos.as_num'' None 0 0))
              [''aggregations'', ''values'', ''after_key''] =
              Inr (dict [(''infos.as_num'', PInt 8075)])"
    by code_simp
  have r1: "snd (distinct_response two_pages sample_env ''infos.as_num'' None 0 (Suc 0)) = 2"
    by code_simp
  have f: "to_dict sample_env (distinct_flt ''infos.as_num'' None) = dict [(''match_all'', dict [])]"
    by (simp add: sample_env_def distinct_flt_def flt_empty_def)
  have q: "distinct_base_query ''infos.as_num'' = dict [(''field'', PStr ''infos.as_num'')]"
    by (simp add: distinct_base_query_def)
  have h: "(\<forall>k<Suc 0. \<exists>tok.
             snd (distinct_outcome two_pages sample_env ''infos.as_num'' None 0 k) = Inr (Some tok))
           \<and> snd (distinct_outcome two_pages sample_env ''infos.as_num'' None 0 (Suc 0)) = Inr None"
    by (simp add: o0 o1)
  from distinct_pagination[of "Suc 0" two_pages sample_env "''infos.as_num''" None 0] h
  have "distinct_values two_pages sample_env ''infos.as_num'' None 0 =
        Some (concat (map (\<lambda>k. fst (distinct_outcome two_pages sample_env ''infos.as_num'' None 0 k))
                [0..<Suc (Suc 0)]),
              None,
              snd (distinct_response two_pages sample_env ''infos.as_num'' None 0 (Suc 0)))"
    and "distinct_values (logging two_pages) sample_env ''infos.as_num'' None (0, []) =
        Some (concat (map (\<lambda>k. fst (distinct_outcome two_pages sample_env ''infos.as_num'' None 0 k))
                [0..<Suc (Suc 0)]),
              None,
              (snd (distinct_response two_pages sample_env ''infos.as_num'' None 0 (Suc 0)),
               map (\<lambda>k. distinct_request two_pages sample_env ''infos.as_num'' None 0 k)
                 [0..<Suc (Suc 0)]))"
    and "distinct_request two_pages sample_env ''infos.as_num'' None 0 0 =
          dict [(''query'', to_dict sample_env (distinct_flt ''infos.as_num'' None)),
                (''aggs'',
                 dict [(''values'',
                   dict [(''composite'',
                     dict [(''size'', PInt 250),
                           (''sources'',
                            PList [dict [(''infos.as_num'',
                              dict [(''terms'', distinct_base_query ''infos.as_num'')])]])])])])]"
    and "\<forall>k<Suc 0. \<exists>tok.
            py_path (fst (distinct_response two_pages sample_env ''infos.as_num'' None 0 k))
              [''aggregations'', ''values'', ''after_key''] = Inr tok \<and>
            distinct_request two_pages sample_env ''infos.as_num'' None 0 (Suc k) =
              dict [(''query'', to_dict sample_env (distinct_flt ''infos.as_num'' None)),
                    (''aggs'',
                     dict [(''values'',
                       dict [(''composite'',
                         dict [(''size'', PInt 250),
                               (''sources'',
                                PList [dict [(''infos.as_num'',
                                  dict [(''terms'', distinct_base_query ''infos.as_num'')])]]),
                               (''after'', tok)])])])]"
    by blast+
  then show ?thesis
    by (simp add: o0 o1 k0 r1 f q upt_rec del: py_path.simps)
qed


subsection \<open>\<^verbatim>\<open>topvalues\<close> and \<^verbatim>\<open>topnbr\<close>\<close>

text \<open>In the branch that sets \<^verbatim>\<open>nested\<close>, the request does not depend on \<^verbatim>\<open>topnbr\<close>.\<close>

lemma topvalues_body_nested:
  "d_nested d = Some nst \<Longrightarrow> topvalues_body ev d m = topvalues_body ev d n"
  by (simp add: topvalues_body_def)

text \<open>
  Hence, for a pseudo-field \<^verbatim>\<open>httphdr.<subfield>\<close>, \<^verbatim>\<open>topvalues\<close> does the same for every
  \<^verbatim>\<open>topnbr\<close>.
\<close>

lemma topvalues_httphdr_field_any_topnbr:
  "topvalues search ev (''httphdr.'' @ sub) flt m s = topvalues search ev (''httphdr.'' @ sub) flt n s"
proof -
  let ?f = "case flt of None \<Rightarrow> flt_empty | Some f \<Rightarrow> f"
  show ?thesis
  proof (cases "topvalues_dispatch ev (''httphdr.'' @ sub) ?f")
    case (Inl e)
    then show ?thesis by (simp add: topvalues_def)
  next
    case (Inr d)
    then have "\<exists>nst. d_nested d = Some nst"
      by (auto simp: topvalues_dispatch_def and_then_def Let_def split: sum.splits)
    then obtain nst where "d_nested d = Some nst" by blast
    then have "topvalues_body ev d m = topvalues_body ev d n"
      by (rule topvalues_body_nested)
    with Inr show ?thesis by (simp add: topvalues_def)
  qed
qed

text \<open>
  Claim C5. Whatever the pseudo-field, the filter and \<^verbatim>\<open>topnbr\<close>, \<^verbatim>\<open>topvalues\<close> yields at most
  \<^verbatim>\<open>topnbr\<close> values, since the terms aggregation it builds carries \<^verbatim>\<open>size\<close> equal to
  \<^verbatim>\<open>topnbr\<close>, in every branch of the dispatch, the nested aggregation of
  \<^verbatim>\<open>httphdr.<subfield>\<close> included.

  The code gives \<^verbatim>\<open>size\<close> to the terms aggregation only where \<^verbatim>\<open>nested\<close> is \<^verbatim>\<open>None\<close>. For
  \<^verbatim>\<open>topvalues("httphdr.name", topnbr=1)\<close> the request, which the engine below records,
  holds a terms aggregation with the entry \<^verbatim>\<open>field\<close> alone, and the two buckets of the
  response are both yielded.
\<close>

theorem topvalues_httphdr_field_ignores_topnbr:
  "topvalues recording_search sample_env ''httphdr.name'' None 1 [] =
     ([dict [(''_id'', PStr ''server''), (''count'', PInt 2)],
       dict [(''_id'', PStr ''date''), (''count'', PInt 1)]],
      None,
      [dict [(''query'',
              render_query
                (QAnd QEmpty
                   (QNested ''ports''
                      (QNested ''ports.scripts''
                         (QAnd QEmpty (Q ''match'' ''ports.scripts.id'' (PStr ''http-headers''))))))),
             (''aggs'',
              dict [(''patterns'',
                dict [(''nested'', dict [(''path'', PStr ''ports'')]),
                      (''aggs'',
                       dict [(''patterns'',
                         dict [(''nested'', dict [(''path'', PStr ''ports.scripts'')]),
                               (''aggs'',
                                dict [(''patterns'',
                                  dict [(''terms'',
                                    dict [(''field'',
                                      PStr ''ports.scripts.http-headers.name'')])])])])])])])]])"
  by code_simp


end
